theory Spec2Isabelle
  imports Complex_Main "HOL-Library.Word"
begin

unbundle bit_operations_syntax

section \<open>The sharded locker: \<open>indexFor\<close> and \<open>getShard\<close>\<close>

text \<open>
  \<^verbatim>\<open>const ( concurrency = 16; cacheCapacity = 100; tryThreshold = 3; maxBatch = 100 )\<close>
\<close>

definition concurrency :: nat where
  "concurrency = 16"

definition tryThreshold :: nat where
  "tryThreshold = 3"

definition maxBatch :: nat where
  "maxBatch = 100"

text \<open>
  A Go string is a sequence of bytes and \<open>key[i]\<close> reads byte \<open>i\<close>; a \<open>char\<close> of
  HOL is a byte as well, and \<open>of_char\<close> is the conversion \<open>uint32(key[i])\<close>.
  \<open>hash\<close> is a \<open>uint32\<close>: multiplication wraps modulo \<open>2 ^ 32\<close>.

  \<^verbatim>\<open>
  func (l *locker) indexFor(key string) uint32 {
      hash := uint32(2166136261)
      const prime32 = uint32(16777619)
      for i := 0; i < len(key); i++ {
          hash *= prime32
          hash ^= uint32(key[i])
      }
      return hash
  }
  \<close>
\<close>

definition prime32 :: "32 word" where
  "prime32 = 16777619"

function indexFor_loop :: "string \<Rightarrow> nat \<Rightarrow> 32 word \<Rightarrow> 32 word" where
  "indexFor_loop key i hash =
     (if i < length key
      then indexFor_loop key (i + 1) ((hash * prime32) XOR of_char (key ! i))
      else hash)"
  by pat_completeness auto
termination
  by (relation "measure (\<lambda>(key, i, hash). length key - i)") auto

declare indexFor_loop.simps [simp del]

definition indexFor :: "string \<Rightarrow> 32 word" where
  "indexFor key = indexFor_loop key 0 2166136261"

text \<open>
  The locker: \<open>size\<close> slots, each a channel of capacity one; the model keeps, for each
  slot, whether it is held. \<open>NewLocker\<close> makes \<open>size\<close> free slots.
\<close>

record locker =
  shards :: "bool list"
  size_l :: nat

definition NewLocker :: "nat \<Rightarrow> locker" where
  "NewLocker n = \<lparr> shards = replicate n False, size_l = n \<rparr>"

text \<open>
  \<^verbatim>\<open>index := uint(l.indexFor(key)) % uint(l.size); return l.shards[index]\<close>
  The remainder by zero panics in Go, and so does an index beyond the slice: both are
  \<open>None\<close> here. The field \<open>size\<close> is \<open>size_l\<close>, since \<open>size\<close> is a constant of HOL.
\<close>

definition getShard_index :: "locker \<Rightarrow> string \<Rightarrow> nat option" where
  "getShard_index l key =
     (if size_l l = 0 then None
      else let index = unat (indexFor key) mod size_l l
           in if index < length (shards l) then Some index else None)"

text \<open>The hash as the specification words it: seed, then for each byte of the key, left
  to right, multiply by the prime and XOR the byte.\<close>

definition spec_hash :: "string \<Rightarrow> 32 word" where
  "spec_hash key = foldl (\<lambda>h c. (h * 16777619) XOR of_char c) 2166136261 key"


section \<open>Errors\<close>

text \<open>
  The codes of \<open>sdk.Error\<close> that the client names (\<open>sdk.InvalidSequence\<close>,
  \<open>sdk.TxTooLarge\<close>, \<open>sdk.WrongSequence\<close>), the code of a wrapped error, and any
  other code.
\<close>

datatype code = InvalidSequence | TxTooLarge | WrongSequence | WrapCode | OtherCode nat

text \<open>
  The values of Go's \<open>error\<close> interface that the client handles: \<open>Plain\<close> is an error
  that is no \<open>sdk.Error\<close> (\<open>errors.New\<close>), \<open>Sdk c m\<close> an \<open>sdk.Error\<close> with code
  \<open>c\<close>, \<open>Retry es\<close> the \<open>retry.Error\<close> of the retry library: a slice with one
  slot for each attempt allowed, which holds the error of that attempt, or nil when
  the attempt was not made.

  Modelled from the spec: \<open>sdk.Wrap\<close>, \<open>sdk.Wrapf\<close> and \<open>sdk.GetError\<close> are of
  package \<open>types\<close>, which is not among the sources. An error is "wrapped with a stable
  error code": \<open>Wrap e\<close> is an \<open>sdk.Error\<close> that carries \<open>e\<close> and the one code
  \<open>WrapCode\<close>; \<open>Wrapf\<close> wraps the error made of its text; \<open>GetError c\<close> is the
  registered \<open>sdk.Error\<close> of code \<open>c\<close>.
\<close>

datatype error =
    Plain string
  | Sdk code string
  | Retry "error option list"
  | Wrap error

definition Wrapf :: "string \<Rightarrow> error" where
  "Wrapf desc = Wrap (Plain desc)"

definition GetError :: "code \<Rightarrow> error" where
  "GetError c = Sdk c []"

text \<open>\<^verbatim>\<open>e, ok := err.(sdk.Error)\<close> and \<open>e.Code()\<close>: \<open>None\<close> when the assertion fails.\<close>

fun sdkErrorCode :: "error \<Rightarrow> code option" where
  "sdkErrorCode (Sdk c m) = Some c"
| "sdkErrorCode (Wrap e) = Some WrapCode"
| "sdkErrorCode (Plain m) = None"
| "sdkErrorCode (Retry es) = None"

text \<open>
  A call returns or panics: with a slice bound or an index out of range, with a
  division by zero, or with \<open>panic(err)\<close>.
\<close>

datatype panic = SliceBounds | IndexOutOfRange | DivideByZero | PanicError error

datatype 'a outcome = Returns 'a | Panics panic

section \<open>The per-call credential of the gRPC channel\<close>

record BSNProjectInfo =
  ProjectId :: string
  ProjectKey :: string
  ChainAccountAddress :: string

record Token =
  projectId :: string
  projectKey :: string
  chainAccountAddr :: string

definition projectIdHeader :: string where
  "projectIdHeader = ''projectId''"

definition projectKeyHeader :: string where
  "projectKeyHeader = ''projectKey''"

definition chainAccountAddressHeader :: string where
  "chainAccountAddressHeader = ''chainAccountAddress''"

text \<open>
  \<^verbatim>\<open>
  func (t *Token) GetRequestMetadata(ctx context.Context, uri ...string) (map[string]string, error) {
      return map[string]string{projectIdHeader: t.projectId, projectKeyHeader: t.projectKey,
                               chainAccountAddressHeader: t.chainAccountAddr}, nil
  }
  func (t *Token) RequireTransportSecurity() bool { return false }
  \<close>
\<close>

definition GetRequestMetadata :: "Token \<Rightarrow> string list \<Rightarrow> (string \<rightharpoonup> string) \<times> error option" where
  "GetRequestMetadata t uri =
     ([projectIdHeader \<mapsto> projectId t,
       projectKeyHeader \<mapsto> projectKey t,
       chainAccountAddressHeader \<mapsto> chainAccountAddr t], None)"

definition RequireTransportSecurity :: "Token \<Rightarrow> bool" where
  "RequireTransportSecurity t = False"

definition NewBsnToken :: "BSNProjectInfo \<Rightarrow> Token" where
  "NewBsnToken info =
     \<lparr> projectId = ProjectId info,
       projectKey = ProjectKey info,
       chainAccountAddr = ChainAccountAddress info \<rparr>"

text \<open>
  \<open>NewGRPCClient\<close> dials once (\<open>once.Do\<close>) with the two options below and keeps the
  connection in the package variable \<open>clientConnSingleton\<close>, here the state; a failed
  dial panics. \<open>grpc.Dial\<close> is a parameter.
\<close>

datatype DialOption = WithInsecure | WithPerRPCCredentials Token

record ClientConn =
  target :: string
  dialOptions :: "DialOption list"

record grpcGlobals =
  clientConnSingleton :: "ClientConn option"
  onceDone :: bool

definition NewGRPCClient ::
  "(string \<Rightarrow> DialOption list \<Rightarrow> error + ClientConn) \<Rightarrow> string \<Rightarrow> BSNProjectInfo \<Rightarrow>
   grpcGlobals \<Rightarrow> unit outcome \<times> grpcGlobals" where
  "NewGRPCClient Dial url info g =
     (if onceDone g then (Returns (), g)
      else let dialOpts = [WithInsecure, WithPerRPCCredentials (NewBsnToken info)] in
        (case Dial url dialOpts of
           Inl err \<Rightarrow> (Panics (PanicError err), g\<lparr>onceDone := True\<rparr>)
         | Inr clientConn \<Rightarrow>
             (Returns (), g\<lparr>clientConnSingleton := Some clientConn, onceDone := True\<rparr>)))"

text \<open>\<^verbatim>\<open>func (g grpcClient) GenConn() (*grpc.ClientConn, error) { return clientConnSingleton, nil }\<close>\<close>

definition GenConn :: "grpcGlobals \<Rightarrow> ClientConn option \<times> error option" where
  "GenConn g = (clientConnSingleton g, None)"


section \<open>Messages, transaction options and the build context\<close>

text \<open>
  An \<open>sdk.Msg\<close> is an interface; the client calls \<open>Route()\<close> and \<open>ValidateBasic()\<close>
  on it, both pure, so a message is the record of what they return, and its content.
\<close>

record Msg =
  Route :: string
  ValidateBasic :: "error option"
  content :: string

text \<open>
  \<open>sdk.DecCoins\<close> (the fee of the options) and \<open>sdk.Coins\<close> (the fee of the build
  context): denominations with amounts. \<open>uint64\<close> is \<open>64 word\<close>; \<open>float64\<close> is
  \<open>real\<close>, which \<open>prepare\<close> only compares with zero.
\<close>

type_synonym DecCoins = "(string \<times> int) list"
type_synonym Coins = "(string \<times> int) list"

record BaseTx =
  From :: string
  Password :: string
  Gas :: "64 word"
  Fee :: DecCoins
  Memo :: string
  Mode :: string
  SimulateAndExecute :: bool
  GasAdjustment :: real

record ClientConfig =
  cfg_ChainID :: string
  cfg_Mode :: string
  cfg_Gas :: "64 word"
  cfg_GasAdjustment :: real
  cfg_Fee :: DecCoins

record Factory =
  chainID :: string
  mode :: string
  simulateAndExecute :: bool
  gas :: "64 word"
  gasAdjustment :: real
  address :: string
  accountNumber :: "64 word"
  sequence :: "64 word"
  password :: string
  fees :: Coins
  memo :: string

definition NewFactory :: Factory where
  "NewFactory =
     \<lparr> chainID = [], mode = [], simulateAndExecute = False, gas = 0, gasAdjustment = 0,
       address = [], accountNumber = 0, sequence = 0, password = [], fees = [], memo = [] \<rparr>"

record BaseAccount =
  AccountNumber :: "64 word"
  Sequence :: "64 word"

record ResultTx =
  Hash :: string
  Height :: int

definition ResultTx_zero :: ResultTx where
  "ResultTx_zero = \<lparr> Hash = [], Height = 0 \<rparr>"

section \<open>\<open>prepare\<close>\<close>

text \<open>
  What \<open>prepare\<close> calls and the sources do not hold is a parameter: the key and account
  queries, \<open>ToMinCoin\<close>, and \<open>Empty\<close> and \<open>IsValid\<close> of the fee. The queries read and
  write the cache and the network, the state \<open>'w\<close>.
\<close>

record 'w prepare_env =
  QueryAddress :: "string \<Rightarrow> string \<Rightarrow> 'w \<Rightarrow> (error + string) \<times> 'w"
  QueryAndRefreshAccount :: "string \<Rightarrow> 'w \<Rightarrow> (error + BaseAccount) \<times> 'w"
  ToMinCoin :: "DecCoins \<Rightarrow> 'w \<Rightarrow> (error + Coins) \<times> 'w"
  Fee_Empty :: "DecCoins \<Rightarrow> bool"
  Fee_IsValid :: "DecCoins \<Rightarrow> bool"

text \<open>
  The end of \<open>prepare\<close>, from \<^verbatim>\<open>if len(baseTx.Mode) > 0\<close> on: the options of the
  call replace the defaults of the configuration.
\<close>

definition prepare_options :: "BaseTx \<Rightarrow> Factory \<Rightarrow> Factory" where
  "prepare_options baseTx factory =
     (let f1 = (if length (Mode baseTx) > 0 then factory\<lparr>mode := Mode baseTx\<rparr> else factory);
          f2 = (if Gas baseTx > 0 then f1\<lparr>gas := Gas baseTx\<rparr> else f1);
          f3 = (if GasAdjustment baseTx > 0 then f2\<lparr>gasAdjustment := GasAdjustment baseTx\<rparr>
                else f2)
      in if length (Memo baseTx) > 0 then f3\<lparr>memo := Memo baseTx\<rparr> else f3)"

text \<open>
  \<^verbatim>\<open>
  if !baseTx.Fee.Empty() && baseTx.Fee.IsValid() {
      fees, err := base.ToMinCoin(baseTx.Fee...)
      if err != nil { return nil, err }
      factory.WithFee(fees)
  } else {
      fees, err := base.ToMinCoin(base.cfg.Fee...)
      if err != nil { panic(err) }
      factory.WithFee(fees)
  }
  \<close>
\<close>

definition prepare ::
  "'w prepare_env \<Rightarrow> ClientConfig \<Rightarrow> BaseTx \<Rightarrow> 'w \<Rightarrow> (error + Factory) outcome \<times> 'w" where
  "prepare base cfg baseTx w =
     (let factory = NewFactory\<lparr>chainID := cfg_ChainID cfg, mode := cfg_Mode cfg,
            simulateAndExecute := SimulateAndExecute baseTx, gas := cfg_Gas cfg,
            gasAdjustment := cfg_GasAdjustment cfg\<rparr>
      in case QueryAddress base (From baseTx) (Password baseTx) w of
           (Inl err, w1) \<Rightarrow> (Returns (Inl err), w1)
         | (Inr addr, w1) \<Rightarrow>
             (case QueryAndRefreshAccount base addr w1 of
                (Inl err, w2) \<Rightarrow> (Returns (Inl err), w2)
              | (Inr account, w2) \<Rightarrow>
                  (let factory = factory\<lparr>address := addr,
                         accountNumber := AccountNumber account,
                         sequence := Sequence account, password := Password baseTx\<rparr>
                   in if \<not> Fee_Empty base (Fee baseTx) \<and> Fee_IsValid base (Fee baseTx)
                      then (case ToMinCoin base (Fee baseTx) w2 of
                              (Inl err, w3) \<Rightarrow> (Returns (Inl err), w3)
                            | (Inr fs, w3) \<Rightarrow>
                                (Returns (Inr (prepare_options baseTx (factory\<lparr>fees := fs\<rparr>))), w3))
                      else (case ToMinCoin base (cfg_Fee cfg) w2 of
                              (Inl err, w3) \<Rightarrow> (Panics (PanicError err), w3)
                            | (Inr fs, w3) \<Rightarrow>
                                (Returns (Inr (prepare_options baseTx (factory\<lparr>fees := fs\<rparr>))), w3)))))"

section \<open>The node, the cache and the calls made to them\<close>

text \<open>
  \<open>buildTx\<close>, \<open>broadcastTx\<close>, \<open>removeCache\<close> and the \<open>Params\<close> query of the service
  module are not among the sources: they are parameters, functions of the state \<open>'w\<close>
  of the node and the cache. \<open>broadcastTx\<close> returns a result and an error, as in Go.
  \<open>ModuleName\<close> is \<open>service.ModuleName\<close>.
\<close>

record 'w env =
  buildTx :: "Msg list \<Rightarrow> BaseTx \<Rightarrow> 'w \<Rightarrow> (error + (8 word list \<times> Factory)) \<times> 'w"
  broadcastTx :: "8 word list \<Rightarrow> string \<Rightarrow> 'w \<Rightarrow> (ResultTx \<times> error option) \<times> 'w"
  Params :: "'w \<Rightarrow> (error + 64 word) \<times> 'w"
  removeCache :: "string \<Rightarrow> 'w \<Rightarrow> 'w"
  ModuleName :: string

text \<open>
  Every call is recorded, in order, beside the state, with the error it returned (if
  any): the trace is what a claim about "no network call" or "before each retry" is
  stated on. \<open>EvSubArray b n\<close> records a partition of \<open>n\<close> messages into groups of
  \<open>b\<close>; it is no call, only the record of the group size in use.
\<close>

datatype event =
    EvBuildTx "Msg list" "error option"
  | EvParams
  | EvBroadcastTx "8 word list" string "error option"
  | EvRemoveCache string
  | EvSubArray nat nat

record 'w state =
  world :: 'w
  trace :: "event list"

definition do_buildTx ::
  "'w env \<Rightarrow> Msg list \<Rightarrow> BaseTx \<Rightarrow> 'w state \<Rightarrow> (error + (8 word list \<times> Factory)) \<times> 'w state" where
  "do_buildTx base mss baseTx s =
     (case buildTx base mss baseTx (world s) of
        (r, w) \<Rightarrow>
          (r, \<lparr> world = w,
                trace = trace s @ [EvBuildTx mss (case r of Inl e \<Rightarrow> Some e | Inr b \<Rightarrow> None)] \<rparr>))"

definition do_broadcastTx ::
  "'w env \<Rightarrow> 8 word list \<Rightarrow> string \<Rightarrow> 'w state \<Rightarrow> (ResultTx \<times> error option) \<times> 'w state" where
  "do_broadcastTx base txByte m s =
     (case broadcastTx base txByte m (world s) of
        (r, w) \<Rightarrow> (r, \<lparr> world = w, trace = trace s @ [EvBroadcastTx txByte m (snd r)] \<rparr>))"

definition do_Params :: "'w env \<Rightarrow> 'w state \<Rightarrow> (error + 64 word) \<times> 'w state" where
  "do_Params base s =
     (case Params base (world s) of
        (r, w) \<Rightarrow> (r, \<lparr> world = w, trace = trace s @ [EvParams] \<rparr>))"

definition do_removeCache :: "'w env \<Rightarrow> string \<Rightarrow> 'w state \<Rightarrow> 'w state" where
  "do_removeCache base addr s =
     \<lparr> world = removeCache base addr (world s), trace = trace s @ [EvRemoveCache addr] \<rparr>"

section \<open>\<open>ValidateTxSize\<close>\<close>

text \<open>
  \<^verbatim>\<open>
  for _, msg := range msgs {
      if msg.Route() == service.ModuleName { isServiceTx = true; break }
  }
  \<close>
\<close>

fun isServiceTx :: "string \<Rightarrow> Msg list \<Rightarrow> bool" where
  "isServiceTx name [] = False"
| "isServiceTx name (msg # msgs) = (if Route msg = name then True else isServiceTx name msgs)"

text \<open>
  \<open>GenConn\<close> returns no error, so only the \<open>Params\<close> query can fail.
  \<open>uint64(txSize)\<close> is \<open>txSize\<close>, the length of a slice.
\<close>

definition ValidateTxSize ::
  "'w env \<Rightarrow> nat \<Rightarrow> Msg list \<Rightarrow> 'w state \<Rightarrow> (error + bool) \<times> 'w state" where
  "ValidateTxSize base txSize msgs s =
     (if isServiceTx (ModuleName base) msgs
      then (case do_Params base s of
              (Inl err, s1) \<Rightarrow> (Inl (Wrap err), s1)
            | (Inr TxSizeLimit, s1) \<Rightarrow>
                (if txSize > unat TxSizeLimit then (Inr False, s1) else (Inr True, s1)))
      else (Inr True, s))"

section \<open>\<open>retry.Do\<close>\<close>

text \<open>
  \<open>retry.Do\<close> is of the library \<^verbatim>\<open>github.com/avast/retry-go\<close>, which the client
  imports. Both callers set \<open>Attempts\<close>, \<open>RetryIf\<close> and \<open>OnRetry\<close> and leave
  \<open>LastErrorOnly\<close> at its default, so that a failed \<open>Do\<close> returns its whole log
  (\<open>retry.Error\<close>): a slice of \<open>attempts\<close> slots, made with every slot nil; attempt
  \<open>n\<close> writes its error to slot \<open>n\<close>, and the slots of the attempts that were not
  made stay nil. The delay between two attempts is left out. The library is not among
  the sources; its loop, in outline:

  \<^verbatim>\<open>
  errorLog = make(Error, config.attempts)
  for n < config.attempts {
      err := retryableFunc()
      if err != nil {
          errorLog[n] = err
          if !config.retryIf(err) { break }
          config.onRetry(n, err)
          if n == config.attempts-1 { break }
          time.Sleep(delay)
      } else {
          return nil
      }
      n++
  }
  return errorLog
  \<close>

  The closures share the variables of the caller and the state of the node: \<open>'c\<close> is
  both. A panic of \<open>retryableFunc\<close> is not recovered by the loop. \<open>errorLog[n] = err\<close>
  panics when the log has no slot \<open>n\<close>.
\<close>

function retry_loop ::
  "('c \<Rightarrow> error option outcome \<times> 'c) \<Rightarrow> (error \<Rightarrow> bool) \<Rightarrow> (nat \<Rightarrow> error \<Rightarrow> 'c \<Rightarrow> 'c) \<Rightarrow>
   nat \<Rightarrow> nat \<Rightarrow> error option list \<Rightarrow> 'c \<Rightarrow> error option outcome \<times> 'c" where
  "retry_loop retryableFunc retryIf onRetry attempts n errorLog c =
     (if n < attempts then
        (case retryableFunc c of
           (Panics p, c1) \<Rightarrow> (Panics p, c1)
         | (Returns None, c1) \<Rightarrow> (Returns None, c1)
         | (Returns (Some err), c1) \<Rightarrow>
             (if length errorLog \<le> n then (Panics IndexOutOfRange, c1)
              else if \<not> retryIf err
              then (Returns (Some (Retry (errorLog[n := Some err]))), c1)
              else let c2 = onRetry n err c1 in
                if n = attempts - 1
                then (Returns (Some (Retry (errorLog[n := Some err]))), c2)
                else retry_loop retryableFunc retryIf onRetry attempts (n + 1)
                       (errorLog[n := Some err]) c2))
      else (Returns (Some (Retry errorLog)), c))"
  by pat_completeness auto
termination
  by (relation "measure (\<lambda>(f, r, h, attempts, n, errorLog, c). attempts - n)") auto

declare retry_loop.simps [simp del]

definition retry_Do ::
  "('c \<Rightarrow> error option outcome \<times> 'c) \<Rightarrow> (error \<Rightarrow> bool) \<Rightarrow> (nat \<Rightarrow> error \<Rightarrow> 'c \<Rightarrow> 'c) \<Rightarrow>
   nat \<Rightarrow> 'c \<Rightarrow> error option outcome \<times> 'c" where
  "retry_Do retryableFunc retryIf onRetry attempts c =
     retry_loop retryableFunc retryIf onRetry attempts 0 (replicate attempts None) c"

section \<open>\<open>BuildAndSend\<close>\<close>

text \<open>The variables the closures of \<open>BuildAndSend\<close> share: \<open>res\<close> and \<open>address\<close>.\<close>

record send_vars =
  s_res :: ResultTx
  s_address :: string

text \<open>
  \<^verbatim>\<open>
  retryableFunc := func() error {
      txByte, ctx, e := base.buildTx(msg, baseTx)
      if e != nil { return e }
      if res, e = base.broadcastTx(txByte, ctx.Mode()); e != nil {
          address = ctx.Address()
          return e
      }
      return nil
  }
  \<close>
\<close>

definition BuildAndSend_retryableFunc ::
  "'w env \<Rightarrow> Msg list \<Rightarrow> BaseTx \<Rightarrow> send_vars \<times> 'w state \<Rightarrow>
   error option outcome \<times> (send_vars \<times> 'w state)" where
  "BuildAndSend_retryableFunc base msg baseTx c =
     (case c of (v, s) \<Rightarrow>
        (case do_buildTx base msg baseTx s of
           (Inl e, s1) \<Rightarrow> (Returns (Some e), (v, s1))
         | (Inr (txByte, ctx), s1) \<Rightarrow>
             (case do_broadcastTx base txByte (mode ctx) s1 of
                ((r, Some e), s2) \<Rightarrow>
                  (Returns (Some e), (v\<lparr>s_res := r, s_address := address ctx\<rparr>, s2))
              | ((r, None), s2) \<Rightarrow> (Returns None, (v\<lparr>s_res := r\<rparr>, s2)))))"

definition BuildAndSend_retryIfFunc :: "error \<Rightarrow> bool" where
  "BuildAndSend_retryIfFunc err =
     (case sdkErrorCode err of Some c \<Rightarrow> c = WrongSequence | None \<Rightarrow> False)"

definition BuildAndSend_onRetryFunc ::
  "'w env \<Rightarrow> nat \<Rightarrow> error \<Rightarrow> send_vars \<times> 'w state \<Rightarrow> send_vars \<times> 'w state" where
  "BuildAndSend_onRetryFunc base n err c =
     (case c of (v, s) \<Rightarrow> (v, do_removeCache base (s_address v) s))"

text \<open>
  The lock of the sender's shard is taken at entry and released at return; with one
  caller it changes nothing and is left out. The result: \<open>res\<close> and the error.
\<close>

definition BuildAndSend ::
  "'w env \<Rightarrow> Msg list \<Rightarrow> BaseTx \<Rightarrow> 'w state \<Rightarrow> (ResultTx \<times> error option) outcome \<times> 'w state" where
  "BuildAndSend base msg baseTx s =
     (case retry_Do (BuildAndSend_retryableFunc base msg baseTx) BuildAndSend_retryIfFunc
             (BuildAndSend_onRetryFunc base) tryThreshold
             (\<lparr> s_res = ResultTx_zero, s_address = [] \<rparr>, s) of
        (Panics p, (v, s1)) \<Rightarrow> (Panics p, s1)
      | (Returns (Some err), (v, s1)) \<Rightarrow> (Returns (s_res v, Some (Wrap err)), s1)
      | (Returns None, (v, s1)) \<Rightarrow> (Returns (s_res v, None), s1))"

section \<open>\<open>SendBatch\<close>\<close>

text \<open>
  Modelled from the spec: \<open>utils.SubArray\<close> is not among the sources. The messages are
  partitioned "into consecutive groups of size \<open>batchSize\<close> (preserving original order;
  the last group may be smaller)": group \<open>i\<close> is the messages from \<open>i * subLen\<close> on, at
  most \<open>subLen\<close> of them. No group size below one has such a partition: \<open>None\<close>.
\<close>

definition SubArray :: "nat \<Rightarrow> 'a list \<Rightarrow> 'a list list option" where
  "SubArray subLen array =
     (if subLen = 0 then None
      else Some (map (\<lambda>i. take subLen (drop (i * subLen) array))
                  [0 ..< (length array + subLen - 1) div subLen]))"

text \<open>\<^verbatim>\<open>for _, m := range msgs { if err := m.ValidateBasic(); err != nil { return rs, sdk.Wrap(err) } }\<close>\<close>

fun validate_msgs :: "Msg list \<Rightarrow> error option" where
  "validate_msgs [] = None"
| "validate_msgs (m # msgs) =
     (case ValidateBasic m of Some err \<Rightarrow> Some err | None \<Rightarrow> validate_msgs msgs)"

text \<open>The variables the closures of \<open>SendBatch\<close> share: \<open>msgs\<close>, \<open>batch\<close>, \<open>rs\<close>,
  \<open>address\<close>.\<close>

record batch_vars =
  v_msgs :: "Msg list"
  v_batch :: nat
  v_rs :: "ResultTx list"
  v_address :: string

text \<open>
  The body of the loop over the groups, from group \<open>i\<close> on. \<open>msgs[i*batch:]\<close> panics
  when \<open>i * batch\<close> is beyond the length.

  \<^verbatim>\<open>
  for i, ms := range utils.SubArray(batch, msgs) {
      mss := ms.(sdk.Msgs)
      txByte, ctx, err := base.buildTx(mss, baseTx)
      if err != nil { return err }
      valid, err := base.ValidateTxSize(len(txByte), mss)
      if err != nil { return err }
      if !valid {
          msgs = msgs[i*batch:]
          batch = batch / 2
          return sdk.GetError(sdk.RootCodespace, uint32(sdk.TxTooLarge))
      }
      res, err := base.broadcastTx(txByte, ctx.Mode())
      if err != nil { address = ctx.Address(); return err }
      rs = append(rs, res)
  }
  return nil
  \<close>
\<close>

fun send_groups ::
  "'w env \<Rightarrow> BaseTx \<Rightarrow> nat \<Rightarrow> Msg list list \<Rightarrow> batch_vars \<Rightarrow> 'w state \<Rightarrow>
   error option outcome \<times> (batch_vars \<times> 'w state)" where
  "send_groups base baseTx i [] v s = (Returns None, (v, s))"
| "send_groups base baseTx i (mss # groups) v s =
     (case do_buildTx base mss baseTx s of
        (Inl err, s1) \<Rightarrow> (Returns (Some err), (v, s1))
      | (Inr (txByte, ctx), s1) \<Rightarrow>
          (case ValidateTxSize base (length txByte) mss s1 of
             (Inl err, s2) \<Rightarrow> (Returns (Some err), (v, s2))
           | (Inr valid, s2) \<Rightarrow>
               (if \<not> valid then
                  (if i * v_batch v > length (v_msgs v) then (Panics SliceBounds, (v, s2))
                   else (Returns (Some (GetError TxTooLarge)),
                         (v\<lparr>v_msgs := drop (i * v_batch v) (v_msgs v),
                            v_batch := v_batch v div 2\<rparr>, s2)))
                else
                  (case do_broadcastTx base txByte (mode ctx) s2 of
                     ((res, Some err), s3) \<Rightarrow>
                       (Returns (Some err), (v\<lparr>v_address := address ctx\<rparr>, s3))
                   | ((res, None), s3) \<Rightarrow>
                       send_groups base baseTx (i + 1) groups (v\<lparr>v_rs := v_rs v @ [res]\<rparr>) s3))))"

definition SendBatch_retryableFunc ::
  "'w env \<Rightarrow> BaseTx \<Rightarrow> batch_vars \<times> 'w state \<Rightarrow> error option outcome \<times> (batch_vars \<times> 'w state)" where
  "SendBatch_retryableFunc base baseTx c =
     (case c of (v, s) \<Rightarrow>
        (case SubArray (v_batch v) (v_msgs v) of
           None \<Rightarrow> (Panics DivideByZero, (v, s))
         | Some groups \<Rightarrow>
             send_groups base baseTx 0 groups v
               (s\<lparr>trace := trace s @ [EvSubArray (v_batch v) (length (v_msgs v))]\<rparr>)))"

definition SendBatch_retryIf :: "error \<Rightarrow> bool" where
  "SendBatch_retryIf err =
     (case sdkErrorCode err of
        Some c \<Rightarrow> c = InvalidSequence \<or> c = TxTooLarge
      | None \<Rightarrow> False)"

definition SendBatch_onRetry ::
  "'w env \<Rightarrow> nat \<Rightarrow> error \<Rightarrow> batch_vars \<times> 'w state \<Rightarrow> batch_vars \<times> 'w state" where
  "SendBatch_onRetry base n err c =
     (case c of (v, s) \<Rightarrow> (v, do_removeCache base (v_address v) s))"

text \<open>
  \<open>SendBatch_run\<close> is \<open>SendBatch\<close> after the validation of the messages: the call of
  \<open>retry.Do\<close>, with the variables and the state it ends in.
\<close>

definition SendBatch_run ::
  "'w env \<Rightarrow> Msg list \<Rightarrow> BaseTx \<Rightarrow> 'w state \<Rightarrow> error option outcome \<times> (batch_vars \<times> 'w state)" where
  "SendBatch_run base msgs baseTx s =
     retry_Do (SendBatch_retryableFunc base baseTx) SendBatch_retryIf (SendBatch_onRetry base)
       tryThreshold
       (\<lparr> v_msgs = msgs, v_batch = maxBatch, v_rs = [], v_address = [] \<rparr>, s)"

text \<open>
  \<^verbatim>\<open>
  if msgs == nil || len(msgs) == 0 {
      return rs, sdk.Wrapf("must have at least one message in list")
  }
  defer sdk.CatchPanic(...)
  ...
  _ = retry.Do(retryableFunc, retry.Attempts(tryThreshold), retry.RetryIf(retryIf), retry.OnRetry(onRetry))
  return rs, nil
  \<close>
  The value of \<open>retry.Do\<close> is dropped. A panic is recovered by the deferred
  \<open>CatchPanic\<close>, and the call returns the named results as they stand: \<open>rs\<close> and no
  error.
\<close>

definition SendBatch ::
  "'w env \<Rightarrow> Msg list \<Rightarrow> BaseTx \<Rightarrow> 'w state \<Rightarrow> (ResultTx list \<times> error option) \<times> 'w state" where
  "SendBatch base msgs baseTx s =
     (if length msgs = 0
      then (([], Some (Wrapf ''must have at least one message in list'')), s)
      else (case validate_msgs msgs of
              Some err \<Rightarrow> (([], Some (Wrap err)), s)
            | None \<Rightarrow>
                (case SendBatch_run base msgs baseTx s of
                   (r, (v, s1)) \<Rightarrow> ((v_rs v, None), s1))))"

section \<open>Reading a trace\<close>

text \<open>The error a recorded call returned, the errors of a trace in order, and the
  number of builds, which is the number of attempts of \<open>BuildAndSend\<close>.\<close>

fun ev_error :: "event \<Rightarrow> error option" where
  "ev_error (EvBuildTx mss r) = r"
| "ev_error (EvBroadcastTx txByte m r) = r"
| "ev_error EvParams = None"
| "ev_error (EvRemoveCache a) = None"
| "ev_error (EvSubArray b n) = None"

fun errors_of :: "event list \<Rightarrow> error list" where
  "errors_of [] = []"
| "errors_of (ev # evs) =
     (case ev_error ev of Some e \<Rightarrow> e # errors_of evs | None \<Rightarrow> errors_of evs)"

fun is_build :: "event \<Rightarrow> bool" where
  "is_build (EvBuildTx mss r) = True"
| "is_build ev = False"

fun is_broadcast :: "event \<Rightarrow> bool" where
  "is_broadcast (EvBroadcastTx txByte m r) = True"
| "is_broadcast ev = False"

fun is_removeCache :: "event \<Rightarrow> bool" where
  "is_removeCache (EvRemoveCache a) = True"
| "is_removeCache ev = False"

definition attempts_made :: "event list \<Rightarrow> nat" where
  "attempts_made evs = length (filter is_build evs)"

definition stale :: "error \<Rightarrow> bool" where
  "stale e = (sdkErrorCode e = Some WrongSequence)"

text \<open>
  The retry policy of \<open>BuildAndSend\<close> as a relation between a recorded call and the
  next one: a broadcast follows a build that succeeded; after a call that failed,
  only the invalidation of the cache follows, and only when the error carries the
  wrong-sequence code; a build follows an invalidation; nothing follows a broadcast
  that succeeded. A trace keeps the policy when each of its events follows the one
  before.
\<close>

fun follows :: "event \<Rightarrow> event \<Rightarrow> bool" where
  "follows (EvBuildTx mss None) ev = is_broadcast ev"
| "follows (EvBuildTx mss (Some e)) ev = (stale e \<and> is_removeCache ev)"
| "follows (EvBroadcastTx txByte m None) ev = False"
| "follows (EvBroadcastTx txByte m (Some e)) ev = (stale e \<and> is_removeCache ev)"
| "follows (EvRemoveCache a) ev = is_build ev"
| "follows EvParams ev = False"
| "follows (EvSubArray b n) ev = False"

fun keeps_policy :: "event list \<Rightarrow> bool" where
  "keeps_policy (a # b # evs) = (follows a b \<and> keeps_policy (b # evs))"
| "keeps_policy evs = True"

text \<open>
  Every invalidation of the trace that comes right after a broadcast is of the
  account \<open>a\<close>.
\<close>

fun invalidates_after_broadcast :: "string \<Rightarrow> event list \<Rightarrow> bool" where
  "invalidates_after_broadcast a [] = True"
| "invalidates_after_broadcast a [ev] = True"
| "invalidates_after_broadcast a (ev # ev' # evs) =
     ((if is_broadcast ev \<and> is_removeCache ev' then ev' = EvRemoveCache a else True)
      \<and> invalidates_after_broadcast a (ev' # evs))"

text \<open>
  The log \<open>retry.Do\<close> returns after the attempts that failed with the errors \<open>es\<close>,
  of \<open>k\<close> attempts allowed: the errors in order, then nil in the slots left.
\<close>

definition slots :: "nat \<Rightarrow> error list \<Rightarrow> error option list" where
  "slots k es = map Some es @ replicate (k - length es) None"

text \<open>
  The state of the node and the cache after the calls of a trace, made in order from
  the state \<open>w\<close>: each build, broadcast and query as the node answers it, and each
  invalidation as \<open>removeCache\<close> does it.
\<close>

fun replay :: "'w env \<Rightarrow> BaseTx \<Rightarrow> event list \<Rightarrow> 'w \<Rightarrow> 'w" where
  "replay base baseTx [] w = w"
| "replay base baseTx (EvBuildTx mss r # evs) w =
     replay base baseTx evs (snd (buildTx base mss baseTx w))"
| "replay base baseTx (EvBroadcastTx txByte m r # evs) w =
     replay base baseTx evs (snd (broadcastTx base txByte m w))"
| "replay base baseTx (EvParams # evs) w = replay base baseTx evs (snd (Params base w))"
| "replay base baseTx (EvRemoveCache a # evs) w = replay base baseTx evs (removeCache base a w)"
| "replay base baseTx (EvSubArray b n # evs) w = replay base baseTx evs w"



section \<open>Environments for the examples\<close>

definition env10 :: "nat prepare_env" where
  "env10 = \<lparr> QueryAddress = (\<lambda>name pw w. (Inr ''iaa1signer'', w)),
     QueryAndRefreshAccount = (\<lambda>addr w. (Inr \<lparr> AccountNumber = 7, Sequence = 1 \<rparr>, w)),
     ToMinCoin = (\<lambda>coins w. (if coins = [] then Inl (Plain ''no coin'') else Inr coins, w + 1)),
     Fee_Empty = (\<lambda>coins. coins = []),
     Fee_IsValid = (\<lambda>coins. list_all (\<lambda>c. snd c > 0) coins) \<rparr>"

definition cfg10 :: ClientConfig where
  "cfg10 = \<lparr> cfg_ChainID = ''irita'', cfg_Mode = ''commit'', cfg_Gas = 200000,
     cfg_GasAdjustment = 1, cfg_Fee = [] \<rparr>"

definition baseTx10 :: BaseTx where
  "baseTx10 = \<lparr> From = ''alice'', Password = ''pw'', Gas = 0, Fee = [(''point'', - 4)],
     Memo = [], Mode = [], SimulateAndExecute = False, GasAdjustment = 0 \<rparr>"

text \<open>
  A node for the examples. Its state counts the \<open>Params\<close> queries and the broadcasts
  made so far; query \<open>p\<close> reports the limit \<open>limits p\<close>, broadcast \<open>b\<close> returns the
  error \<open>fails b\<close>. A signed transaction is one byte, the number of its messages.
\<close>

definition ctx0 :: Factory where
  "ctx0 = NewFactory\<lparr>address := ''iaa1signer'', mode := ''commit''\<rparr>"

definition node :: "(nat \<Rightarrow> 64 word) \<Rightarrow> (nat \<Rightarrow> error option) \<Rightarrow> (nat \<times> nat) env" where
  "node limits fails =
     \<lparr> buildTx = (\<lambda>mss baseTx w. (Inr ([of_nat (length mss)], ctx0), w)),
       broadcastTx = (\<lambda>txByte m w. ((\<lparr> Hash = ''tx'', Height = int (snd w) \<rparr>, fails (snd w)),
                                     (fst w, snd w + 1))),
       Params = (\<lambda>w. (Inr (limits (fst w)), (fst w + 1, snd w))),
       removeCache = (\<lambda>a w. w),
       ModuleName = ''service'' \<rparr>"

definition start :: "(nat \<times> nat) state" where
  "start = \<lparr> world = (0, 0), trace = [] \<rparr>"


definition bank_msg :: "nat \<Rightarrow> Msg" where
  "bank_msg i = \<lparr> Route = ''bank'', ValidateBasic = None, content = replicate i CHR ''m'' \<rparr>"

text \<open>Errors a node returns: a stale sequence, and a rejection of another kind.\<close>

definition wrong_sequence :: "string \<Rightarrow> error" where
  "wrong_sequence m = Sdk WrongSequence m"

definition unauthorized :: error where
  "unauthorized = Sdk (OtherCode 4) ''unauthorized''"

text \<open>
  A node with a cache that keeps count. Its state is the number of broadcasts made and
  the accounts invalidated so far, in order; build \<open>b\<close> (counted by the broadcasts
  made before it) fails with \<open>build_fails b\<close>, broadcast \<open>b\<close> with \<open>fails b\<close>.
\<close>

definition cached_node ::
  "(nat \<Rightarrow> error option) \<Rightarrow> (nat \<Rightarrow> error option) \<Rightarrow> (nat \<times> string list) env" where
  "cached_node build_fails fails =
     \<lparr> buildTx = (\<lambda>mss baseTx w.
          (case build_fails (fst w) of
             Some e \<Rightarrow> Inl e
           | None \<Rightarrow> Inr ([of_nat (length mss)], ctx0), w)),
       broadcastTx = (\<lambda>txByte m w. ((\<lparr> Hash = ''tx'', Height = int (fst w) \<rparr>, fails (fst w)),
                                     (fst w + 1, snd w))),
       Params = (\<lambda>w. (Inr 1000, w)),
       removeCache = (\<lambda>a w. (fst w, snd w @ [a])),
       ModuleName = ''service'' \<rparr>"

definition cold :: "(nat \<times> string list) state" where
  "cold = \<lparr> world = (0, []), trace = [] \<rparr>"

text \<open>The first broadcast meets a stale sequence, the second is refused.\<close>

definition node_stale_then_refused :: "(nat \<times> string list) env" where
  "node_stale_then_refused =
     cached_node (\<lambda>b. None)
       (\<lambda>b. if b = 0 then Some (wrong_sequence ''first'') else Some unauthorized)"

text \<open>Every broadcast is refused.\<close>

definition node_refused :: "(nat \<times> string list) env" where
  "node_refused = cached_node (\<lambda>b. None) (\<lambda>b. Some unauthorized)"

text \<open>Every build fails with the wrong-sequence code.\<close>

definition node_build_stale :: "(nat \<times> string list) env" where
  "node_build_stale = cached_node (\<lambda>b. Some (wrong_sequence ''build'')) (\<lambda>b. None)"

text \<open>Every broadcast meets a stale sequence.\<close>

definition node_always_stale :: "(nat \<times> nat) env" where
  "node_always_stale =
     node (\<lambda>p. 0)
       (\<lambda>b. Some (wrong_sequence
                (if b = 0 then ''first'' else if b = 1 then ''second'' else ''third'')))"

text \<open>The second broadcast is refused; no size limit is exceeded.\<close>

definition node_second_refused :: "(nat \<times> nat) env" where
  "node_second_refused = node (\<lambda>p. 1000) (\<lambda>b. if b = 1 then Some unauthorized else None)"





section \<open>The hash and the validation loop\<close>

lemma indexFor_loop_foldl:
  "i \<le> length key \<Longrightarrow>
   indexFor_loop key i h = foldl (\<lambda>h c. (h * 16777619) XOR of_char c) h (drop i key)"
proof (induction key i h rule: indexFor_loop.induct)
  case (1 key i hash)
  show ?case
  proof (cases "i < length key")
    case True
    then have "drop i key = key ! i # drop (Suc i) key"
      by (simp add: Cons_nth_drop_Suc)
    with True 1 show ?thesis
      by (simp add: prime32_def indexFor_loop.simps [of key i])
  next
    case False
    with 1 show ?thesis
      by (simp add: indexFor_loop.simps [of key "length key"])
  qed
qed

lemma indexFor_spec_hash: "indexFor key = spec_hash key"
  by (simp add: indexFor_def spec_hash_def indexFor_loop_foldl)

lemma validate_msgs_find:
  "validate_msgs msgs =
     (case find (\<lambda>m. ValidateBasic m \<noteq> None) msgs of None \<Rightarrow> None | Some m \<Rightarrow> ValidateBasic m)"
  by (induction msgs) (auto split: option.splits)

section \<open>Three attempts\<close>

lemma retry_Do_3:
  "retry_Do f rif onr 3 c =
     (case f c of
        (Panics p, c1) \<Rightarrow> (Panics p, c1)
      | (Returns None, c1) \<Rightarrow> (Returns None, c1)
      | (Returns (Some e1), c1) \<Rightarrow>
          (if \<not> rif e1 then (Returns (Some (Retry [Some e1, None, None])), c1)
           else (case f (onr 0 e1 c1) of
              (Panics p, c2) \<Rightarrow> (Panics p, c2)
            | (Returns None, c2) \<Rightarrow> (Returns None, c2)
            | (Returns (Some e2), c2) \<Rightarrow>
                (if \<not> rif e2 then (Returns (Some (Retry [Some e1, Some e2, None])), c2)
                 else (case f (onr 1 e2 c2) of
                    (Panics p, c3) \<Rightarrow> (Panics p, c3)
                  | (Returns None, c3) \<Rightarrow> (Returns None, c3)
                  | (Returns (Some e3), c3) \<Rightarrow>
                      (if \<not> rif e3 then (Returns (Some (Retry [Some e1, Some e2, Some e3])), c3)
                       else (Returns (Some (Retry [Some e1, Some e2, Some e3])), onr 2 e3 c3)))))))"
  unfolding retry_Do_def
  apply (subst retry_loop.simps)
  apply (subst retry_loop.simps)
  apply (subst retry_loop.simps)
  apply (simp add: Let_def numeral_2_eq_2 numeral_3_eq_3 split: prod.splits outcome.splits option.splits)
  done

lemma BuildAndSend_attempt:
  assumes "BuildAndSend_retryableFunc base msg baseTx (v, s) = (r, (v', s'))"
  shows "(\<exists>e. r = Returns (Some e) \<and> v' = v \<and> trace s' = trace s @ [EvBuildTx msg (Some e)])
    \<or> (\<exists>e txByte ctx res. r = Returns (Some e)
          \<and> v' = v\<lparr>s_res := res, s_address := address ctx\<rparr>
          \<and> fst (buildTx base msg baseTx (world s)) = Inr (txByte, ctx)
          \<and> trace s' = trace s @ [EvBuildTx msg None, EvBroadcastTx txByte (mode ctx) (Some e)])
    \<or> (\<exists>txByte m res. r = Returns None \<and> v' = v\<lparr>s_res := res\<rparr>
          \<and> trace s' = trace s @ [EvBuildTx msg None, EvBroadcastTx txByte m None])"
  using assms
  by (auto simp: BuildAndSend_retryableFunc_def do_buildTx_def do_broadcastTx_def
      split: prod.splits sum.splits option.splits)

lemma BuildAndSend_onRetry_trace:
  "BuildAndSend_onRetryFunc base n e (v, s) = (v', s') \<Longrightarrow>
   v' = v \<and> trace s' = trace s @ [EvRemoveCache (s_address v)]"
  by (auto simp: BuildAndSend_onRetryFunc_def do_removeCache_def)
lemma retry_loop_rule:
  assumes run: "retry_loop f rif onr attempts n errorLog c = (r, c')"
    and len: "length errorLog = attempts"
    and inv: "I n errorLog c"
    and succ: "\<And>n l c c1. I n l c \<Longrightarrow> n < attempts \<Longrightarrow> f c = (Returns None, c1) \<Longrightarrow>
                 Q (Returns None) c1"
    and panic: "\<And>n l c p c1. I n l c \<Longrightarrow> n < attempts \<Longrightarrow> f c = (Panics p, c1) \<Longrightarrow>
                 Q (Panics p) c1"
    and stop: "\<And>n l c e c1. I n l c \<Longrightarrow> n < attempts \<Longrightarrow> f c = (Returns (Some e), c1) \<Longrightarrow>
                 \<not> rif e \<Longrightarrow> Q (Returns (Some (Retry (l[n := Some e])))) c1"
    and final: "\<And>n l c e c1. I n l c \<Longrightarrow> Suc n = attempts \<Longrightarrow> f c = (Returns (Some e), c1) \<Longrightarrow>
                 rif e \<Longrightarrow> Q (Returns (Some (Retry (l[n := Some e])))) (onr n e c1)"
    and again: "\<And>n l c e c1. I n l c \<Longrightarrow> Suc n < attempts \<Longrightarrow> f c = (Returns (Some e), c1) \<Longrightarrow>
                 rif e \<Longrightarrow> I (Suc n) (l[n := Some e]) (onr n e c1)"
    and none: "\<And>n l c. I n l c \<Longrightarrow> \<not> n < attempts \<Longrightarrow> Q (Returns (Some (Retry l))) c"
  shows "Q r c'"
  using run len inv
proof (induction "attempts - n" arbitrary: n errorLog c)
  case 0
  then have "\<not> n < attempts" by simp
  with 0 show ?case
    by (auto simp: retry_loop.simps [of f rif onr attempts n] intro: none)
next
  case (Suc k)
  then have lt: "n < attempts" by simp
  with Suc.prems(2) have slot: "\<not> length errorLog \<le> n" by simp
  obtain x c1 where fc: "f c = (x, c1)" by (cases "f c")
  show ?case
  proof (cases x)
    case (Panics p)
    with Suc.prems fc lt show ?thesis
      by (auto simp: retry_loop.simps [of f rif onr attempts n] intro: panic)
  next
    case (Returns eo)
    show ?thesis
    proof (cases eo)
      case None
      with Returns Suc.prems fc lt show ?thesis
        by (auto simp: retry_loop.simps [of f rif onr attempts n] intro: succ)
    next
      case (Some e)
      show ?thesis
      proof (cases "rif e")
        case False
        have "retry_loop f rif onr attempts n errorLog c =
                (Returns (Some (Retry (errorLog[n := Some e]))), c1)"
          using False Some Returns fc lt slot
          by (simp add: retry_loop.simps [of f rif onr attempts n])
        with Suc.prems(1) have "r = Returns (Some (Retry (errorLog[n := Some e])))"
          and "c' = c1" by simp_all
        with stop [OF Suc.prems(3) lt _ False] fc Returns Some show ?thesis by simp
      next
        case True
        show ?thesis
        proof (cases "Suc n = attempts")
          case last: True
          then have h: "attempts - 1 = n" by simp
          have "retry_loop f rif onr attempts n errorLog c =
                  (Returns (Some (Retry (errorLog[n := Some e]))), onr n e c1)"
            using True Some Returns fc lt h slot
            by (simp add: retry_loop.simps [of f rif onr attempts n])
          with Suc.prems(1) have "r = Returns (Some (Retry (errorLog[n := Some e])))"
            and "c' = onr n e c1" by simp_all
          with final [OF Suc.prems(3) last _ True] fc Returns Some show ?thesis by simp
        next
          case False
          with lt have lt2: "Suc n < attempts" and ne: "n \<noteq> attempts - 1" by auto
          from Suc.hyps(2) have k: "k = attempts - Suc n" by simp
          have I': "I (Suc n) (errorLog[n := Some e]) (onr n e c1)"
            using again [OF Suc.prems(3) lt2 _ True] fc Returns Some by simp
          have len': "length (errorLog[n := Some e]) = attempts"
            using Suc.prems(2) by simp
          have "retry_loop f rif onr attempts (Suc n) (errorLog[n := Some e]) (onr n e c1) =
              (r, c')"
            using Suc.prems(1) fc Returns Some True lt ne slot
            by (simp add: retry_loop.simps [of f rif onr attempts n])
          from Suc.hyps(1) [OF k this len' I'] show ?thesis .
        qed
      qed
    qed
  qed
qed

lemma keeps_policy_snoc:
  "keeps_policy (evs @ [a]) = (keeps_policy evs \<and> (evs = [] \<or> follows (last evs) a))"
  by (induction evs rule: keeps_policy.induct) auto

lemma errors_of_append: "errors_of (xs @ ys) = errors_of xs @ errors_of ys"
  by (induction xs) (auto split: option.splits)

lemma attempts_made_append: "attempts_made (xs @ ys) = attempts_made xs + attempts_made ys"
  by (simp add: attempts_made_def)

lemma slots_update:
  assumes "length es = n" and "n < k"
  shows "(slots k es)[n := Some e] = slots k (es @ [e])"
proof -
  from assms have "k - n = Suc (k - Suc n)" by simp
  then have "replicate (k - n) (None :: error option) = None # replicate (k - Suc n) None"
    by simp
  with assms show ?thesis
    by (simp add: slots_def list_update_append)
qed

lemma slots_Nil: "slots k [] = replicate k None"
  by (simp add: slots_def)

lemma replay_append:
  "replay base baseTx (xs @ ys) w = replay base baseTx ys (replay base baseTx xs w)"
  by (induction base baseTx xs w rule: replay.induct) auto

lemma invalidates_after_broadcast_snoc:
  "invalidates_after_broadcast a (xs @ [ev]) =
     (invalidates_after_broadcast a xs
      \<and> (xs = [] \<or> \<not> (is_broadcast (last xs) \<and> is_removeCache ev) \<or> ev = EvRemoveCache a))"
  by (induction a xs rule: invalidates_after_broadcast.induct) auto

lemma bas_attempt_events:
  assumes "BuildAndSend_retryableFunc base msg baseTx c = (r, c1)"
  shows "\<exists>evs. trace (snd c1) = trace (snd c) @ evs \<and> attempts_made evs = 1
     \<and> keeps_policy evs \<and> evs \<noteq> [] \<and> is_build (hd evs)
     \<and> (case r of
          Returns None \<Rightarrow> errors_of evs = [] \<and> ev_error (last evs) = None \<and> is_broadcast (last evs)
        | Returns (Some e) \<Rightarrow> errors_of evs = [e] \<and> ev_error (last evs) = Some e
            \<and> (is_build (last evs) \<or> is_broadcast (last evs))
        | Panics p \<Rightarrow> False)"
proof -
  obtain v s v' s' where c: "c = (v, s)" "c1 = (v', s')"
    by (cases c, cases c1) auto
  from BuildAndSend_attempt [of base msg baseTx v s r v' s'] assms c
  show ?thesis
    by (auto simp: attempts_made_def)
qed

lemma keeps_policy_join:
  assumes "keeps_policy xs" "keeps_policy ys" "ys \<noteq> []" "xs = [] \<or> follows (last xs) (hd ys)"
  shows "keeps_policy (xs @ ys)"
  using assms
  by (induction xs rule: keeps_policy.induct) (auto simp: neq_Nil_conv)

lemma follows_removeCache: "is_removeCache a \<Longrightarrow> is_build b \<Longrightarrow> follows a b"
  by (cases a) auto

lemma follows_failed:
  "ev_error a = Some e \<Longrightarrow> is_build a \<or> is_broadcast a \<Longrightarrow> stale e \<Longrightarrow>
   follows a (EvRemoveCache x)"
  by (cases a) auto
lemma keeps_policy_snoc':
  "keeps_policy xs \<Longrightarrow> xs \<noteq> [] \<Longrightarrow> follows (last xs) a \<Longrightarrow> keeps_policy (xs @ [a])"
  by (simp add: keeps_policy_snoc)

lemma BuildAndSend_loop:
  assumes run: "retry_Do (BuildAndSend_retryableFunc base msg baseTx) BuildAndSend_retryIfFunc
             (BuildAndSend_onRetryFunc base) 3 (v0, s) = (r, c')"
  shows "\<exists>evs. trace (snd c') = trace s @ evs \<and> keeps_policy evs
      \<and> 1 \<le> attempts_made evs \<and> attempts_made evs \<le> 3
      \<and> ((r = Returns None \<and> ev_error (last evs) = None \<and> is_broadcast (last evs)
            \<and> Suc (length (errors_of evs)) = attempts_made evs)
         \<or> (r = Returns (Some (Retry (slots 3 (errors_of evs))))
            \<and> length (errors_of evs) = attempts_made evs))"
    (is "?Q r c'")
proof -
  let ?I = "\<lambda>n l (c :: send_vars \<times> 'a state). \<exists>evs. trace (snd c) = trace s @ evs \<and> keeps_policy evs
      \<and> attempts_made evs = n \<and> l = slots 3 (errors_of evs) \<and> length (errors_of evs) = n
      \<and> n < 3
      \<and> (evs = [] \<or> is_removeCache (last evs))"
  let ?f = "BuildAndSend_retryableFunc base msg baseTx"
  have rif: "BuildAndSend_retryIfFunc e = stale e" for e
    by (simp add: BuildAndSend_retryIfFunc_def stale_def split: option.splits)
  have join: "keeps_policy (evs @ evs1)"
    if "keeps_policy evs" "evs = [] \<or> is_removeCache (last evs)" "keeps_policy evs1"
      "evs1 \<noteq> []" "is_build (hd evs1)" for evs evs1
    using that by (auto intro!: keeps_policy_join follows_removeCache)
  from run have loop: "retry_loop ?f BuildAndSend_retryIfFunc (BuildAndSend_onRetryFunc base)
      3 0 (replicate 3 None) (v0, s) = (r, c')"
    by (simp add: retry_Do_def)
  have len: "length (replicate 3 (None :: error option)) = 3"
    by simp
  have init: "?I 0 (replicate 3 None) (v0, s)"
    by (simp add: attempts_made_def slots_Nil)
  show ?thesis
  proof (rule retry_loop_rule [where I = ?I and Q = ?Q, OF loop len init])
    fix n l c c1
    assume I: "?I n l c" and n: "n < 3" and f: "?f c = (Returns None, c1)"
    from I obtain evs where evs: "trace (snd c) = trace s @ evs" "keeps_policy evs"
      "attempts_made evs = n" "l = slots 3 (errors_of evs)" "length (errors_of evs) = n"
      "evs = [] \<or> is_removeCache (last evs)" by blast
    from bas_attempt_events [OF f] obtain evs1 where evs1:
      "trace (snd c1) = trace (snd c) @ evs1" "attempts_made evs1 = 1" "keeps_policy evs1"
      "evs1 \<noteq> []" "is_build (hd evs1)" "errors_of evs1 = []" "ev_error (last evs1) = None"
      "is_broadcast (last evs1)" by auto
    show "?Q (Returns None) c1"
      using evs evs1 n join [of evs evs1]
      by (intro exI [of _ "evs @ evs1"]) (simp add: attempts_made_append errors_of_append)
  next
    fix n l c p c1
    assume "?f c = (Panics p, c1)"
    from bas_attempt_events [OF this] show "?Q (Panics p) c1" by simp
  next
    fix n l c e c1
    assume I: "?I n l c" and n: "n < 3" and f: "?f c = (Returns (Some e), c1)"
    from I obtain evs where evs: "trace (snd c) = trace s @ evs" "keeps_policy evs"
      "attempts_made evs = n" "l = slots 3 (errors_of evs)" "length (errors_of evs) = n"
      "evs = [] \<or> is_removeCache (last evs)" by blast
    from bas_attempt_events [OF f] obtain evs1 where evs1:
      "trace (snd c1) = trace (snd c) @ evs1" "attempts_made evs1 = 1" "keeps_policy evs1"
      "evs1 \<noteq> []" "is_build (hd evs1)" "errors_of evs1 = [e]" "ev_error (last evs1) = Some e"
      "is_build (last evs1) \<or> is_broadcast (last evs1)" by auto
    show "?Q (Returns (Some (Retry (l[n := Some e])))) c1"
      using evs evs1 n join [of evs evs1] slots_update [of "errors_of evs" n 3 e]
      by (intro exI [of _ "evs @ evs1"]) (simp add: attempts_made_append errors_of_append)
  next
    fix n l c e c1
    assume I: "?I n l c" and n: "Suc n = 3" and f: "?f c = (Returns (Some e), c1)"
      and r: "BuildAndSend_retryIfFunc e"
    from I obtain evs where evs: "trace (snd c) = trace s @ evs" "keeps_policy evs"
      "attempts_made evs = n" "l = slots 3 (errors_of evs)" "length (errors_of evs) = n"
      "evs = [] \<or> is_removeCache (last evs)" by blast
    from bas_attempt_events [OF f] obtain evs1 where evs1:
      "trace (snd c1) = trace (snd c) @ evs1" "attempts_made evs1 = 1" "keeps_policy evs1"
      "evs1 \<noteq> []" "is_build (hd evs1)" "errors_of evs1 = [e]" "ev_error (last evs1) = Some e"
      "is_build (last evs1) \<or> is_broadcast (last evs1)" by auto
    obtain v1 s1 where c1: "c1 = (v1, s1)" by (cases c1)
    have tr: "trace (snd (BuildAndSend_onRetryFunc base n e c1)) =
        trace s @ (evs @ evs1) @ [EvRemoveCache (s_address v1)]"
      using evs evs1 c1 by (simp add: BuildAndSend_onRetryFunc_def do_removeCache_def)
    have kp: "keeps_policy ((evs @ evs1) @ [EvRemoveCache (s_address v1)])"
    proof (rule keeps_policy_snoc')
      show "keeps_policy (evs @ evs1)" using evs evs1 by (intro join) simp_all
      show "evs @ evs1 \<noteq> []" using evs1 by simp
      show "follows (last (evs @ evs1)) (EvRemoveCache (s_address v1))"
        using evs1 r follows_failed [of "last evs1" e] by (simp add: rif)
    qed
    show "?Q (Returns (Some (Retry (l[n := Some e])))) (BuildAndSend_onRetryFunc base n e c1)"
      using tr kp evs evs1 n slots_update [of "errors_of evs" n 3 e]
      by (intro exI [of _ "(evs @ evs1) @ [EvRemoveCache (s_address v1)]"])
        (simp add: attempts_made_append errors_of_append, simp add: attempts_made_def)
  next
    fix n l c e c1
    assume I: "?I n l c" and n: "Suc n < 3" and f: "?f c = (Returns (Some e), c1)"
      and r: "BuildAndSend_retryIfFunc e"
    from I obtain evs where evs: "trace (snd c) = trace s @ evs" "keeps_policy evs"
      "attempts_made evs = n" "l = slots 3 (errors_of evs)" "length (errors_of evs) = n"
      "evs = [] \<or> is_removeCache (last evs)" by blast
    from bas_attempt_events [OF f] obtain evs1 where evs1:
      "trace (snd c1) = trace (snd c) @ evs1" "attempts_made evs1 = 1" "keeps_policy evs1"
      "evs1 \<noteq> []" "is_build (hd evs1)" "errors_of evs1 = [e]" "ev_error (last evs1) = Some e"
      "is_build (last evs1) \<or> is_broadcast (last evs1)" by auto
    obtain v1 s1 where c1: "c1 = (v1, s1)" by (cases c1)
    have tr: "trace (snd (BuildAndSend_onRetryFunc base n e c1)) =
        trace s @ (evs @ evs1) @ [EvRemoveCache (s_address v1)]"
      using evs evs1 c1 by (simp add: BuildAndSend_onRetryFunc_def do_removeCache_def)
    have kp: "keeps_policy ((evs @ evs1) @ [EvRemoveCache (s_address v1)])"
    proof (rule keeps_policy_snoc')
      show "keeps_policy (evs @ evs1)" using evs evs1 by (intro join) simp_all
      show "evs @ evs1 \<noteq> []" using evs1 by simp
      show "follows (last (evs @ evs1)) (EvRemoveCache (s_address v1))"
        using evs1 r follows_failed [of "last evs1" e] by (simp add: rif)
    qed
    show "?I (Suc n) (l[n := Some e]) (BuildAndSend_onRetryFunc base n e c1)"
      using tr kp evs evs1 n slots_update [of "errors_of evs" n 3 e]
      by (intro exI [of _ "(evs @ evs1) @ [EvRemoveCache (s_address v1)]"])
        (simp add: attempts_made_append errors_of_append, simp add: attempts_made_def)
  next
    fix n l c
    assume "?I n l c" and "\<not> n < (3::nat)"
    then have False by blast
    then show "?Q (Returns (Some (Retry l))) c" ..
  qed
qed
lemma bas_attempt_world:
  assumes "BuildAndSend_retryableFunc base msg baseTx c = (x, c1)"
  shows "\<exists>evs. trace (snd c1) = trace (snd c) @ evs
     \<and> world (snd c1) = replay base baseTx evs (world (snd c))"
proof -
  obtain v s where c: "c = (v, s)" by (cases c)
  obtain b w1 where b: "buildTx base msg baseTx (world s) = (b, w1)"
    by (cases "buildTx base msg baseTx (world s)")
  show ?thesis
  proof (cases b)
    case (Inl e)
    with assms c b show ?thesis
      by (intro exI [of _ "[EvBuildTx msg (Some e)]"])
        (auto simp: BuildAndSend_retryableFunc_def do_buildTx_def)
  next
    case (Inr built)
    obtain txByte ctx where built: "built = (txByte, ctx)" by (cases built)
    obtain res eo w2 where bc: "broadcastTx base txByte (mode ctx) w1 = ((res, eo), w2)"
      by (cases "broadcastTx base txByte (mode ctx) w1") auto
    with assms c b Inr built show ?thesis
      by (intro exI [of _ "[EvBuildTx msg None, EvBroadcastTx txByte (mode ctx) eo]"])
        (auto simp: BuildAndSend_retryableFunc_def do_buildTx_def do_broadcastTx_def
          split: option.splits)
  qed
qed

lemma BuildAndSend_loop_world:
  assumes run: "retry_Do (BuildAndSend_retryableFunc base msg baseTx) BuildAndSend_retryIfFunc
             (BuildAndSend_onRetryFunc base) 3 (v0, s) = (r, c')"
  shows "\<exists>evs. trace (snd c') = trace s @ evs
      \<and> world (snd c') = replay base baseTx evs (world s)"
proof -
  let ?I = "\<lambda>(n::nat) (l::error option list) (c :: send_vars \<times> 'a state).
      \<exists>evs. trace (snd c) = trace s @ evs \<and> world (snd c) = replay base baseTx evs (world s)"
  let ?Q = "\<lambda>(r::error option outcome) (c :: send_vars \<times> 'a state).
      \<exists>evs. trace (snd c) = trace s @ evs \<and> world (snd c) = replay base baseTx evs (world s)"
  let ?f = "BuildAndSend_retryableFunc base msg baseTx"
  have step: "?I n l c1" if "?I n l c" "?f c = (x, c1)" for n l c x c1
  proof -
    from that(1) obtain evs where evs: "trace (snd c) = trace s @ evs"
      "world (snd c) = replay base baseTx evs (world s)" by blast
    from bas_attempt_world [OF that(2)] obtain evs1 where
      "trace (snd c1) = trace (snd c) @ evs1"
      "world (snd c1) = replay base baseTx evs1 (world (snd c))" by blast
    with evs show ?thesis
      by (intro exI [of _ "evs @ evs1"]) (simp add: replay_append)
  qed
  have hook: "?I n' l' (BuildAndSend_onRetryFunc base n e c1)"
    if "?I n l c" "?f c = (x, c1)" for n n' l l' c e x c1
  proof -
    from step [OF that] obtain evs where evs: "trace (snd c1) = trace s @ evs"
      "world (snd c1) = replay base baseTx evs (world s)" by blast
    then show ?thesis
      by (intro exI [of _ "evs @ [EvRemoveCache (s_address (fst c1))]"])
        (cases c1, simp add: replay_append BuildAndSend_onRetryFunc_def do_removeCache_def)
  qed
  from run have loop: "retry_loop ?f BuildAndSend_retryIfFunc (BuildAndSend_onRetryFunc base)
      3 0 (replicate 3 None) (v0, s) = (r, c')"
    by (simp add: retry_Do_def)
  have len: "length (replicate 3 (None :: error option)) = 3"
    by simp
  have init: "?I 0 (replicate 3 None) (v0, s)" by simp
  show ?thesis
    by (rule retry_loop_rule [where I = ?I and Q = ?Q, OF loop len init])
      (blast intro: step hook)+
qed

lemma BuildAndSend_loop_address:
  assumes run: "retry_Do (BuildAndSend_retryableFunc base msg baseTx) BuildAndSend_retryIfFunc
             (BuildAndSend_onRetryFunc base) 3 (v0, s) = (r, c')"
    and H1: "\<And>w txByte ctx w'. buildTx base msg baseTx w = (Inr (txByte, ctx), w') \<Longrightarrow> address ctx = a"
  shows "\<exists>evs. trace (snd c') = trace s @ evs \<and> invalidates_after_broadcast a evs"
proof -
  let ?I = "\<lambda>(n::nat) (l::error option list) (c :: send_vars \<times> 'a state).
      \<exists>evs. trace (snd c) = trace s @ evs \<and> invalidates_after_broadcast a evs"
  let ?Q = "\<lambda>(r::error option outcome) (c :: send_vars \<times> 'a state).
      \<exists>evs. trace (snd c) = trace s @ evs \<and> invalidates_after_broadcast a evs"
  let ?A = "\<lambda>(x::error option outcome) (c :: send_vars \<times> 'a state).
      \<exists>evs. trace (snd c) = trace s @ evs \<and> invalidates_after_broadcast a evs \<and> evs \<noteq> []
        \<and> (is_broadcast (last evs) \<and> x \<noteq> Returns None \<longrightarrow> s_address (fst c) = a)"
  let ?f = "BuildAndSend_retryableFunc base msg baseTx"
  have step: "?A x c1" if I: "?I n l c" and f: "?f c = (x, c1)" for n l c x c1
  proof -
    from I obtain evs where evs: "trace (snd c) = trace s @ evs"
      "invalidates_after_broadcast a evs" by blast
    obtain v s0 v' s' where c: "c = (v, s0)" "c1 = (v', s')" by (cases c, cases c1) auto
    from BuildAndSend_attempt [of base msg baseTx v s0 x v' s'] f c
    consider (build) e where "x = Returns (Some e)" "v' = v"
        "trace s' = trace s0 @ [EvBuildTx msg (Some e)]"
      | (refused) e txByte ctx res where "x = Returns (Some e)"
        "v' = v\<lparr>s_res := res, s_address := address ctx\<rparr>"
        "fst (buildTx base msg baseTx (world s0)) = Inr (txByte, ctx)"
        "trace s' = trace s0 @ [EvBuildTx msg None, EvBroadcastTx txByte (mode ctx) (Some e)]"
      | (sent) txByte m where "x = Returns None"
        "trace s' = trace s0 @ [EvBuildTx msg None, EvBroadcastTx txByte m None]"
      by blast
    then show ?thesis
    proof cases
      case build
      have "invalidates_after_broadcast a (evs @ [EvBuildTx msg (Some e)])"
        using evs(2) by (simp add: invalidates_after_broadcast_snoc)
      with build evs c show ?thesis
        by (intro exI [of _ "evs @ [EvBuildTx msg (Some e)]"]) simp
    next
      case refused
      from refused(3) have "buildTx base msg baseTx (world s0) =
          (Inr (txByte, ctx), snd (buildTx base msg baseTx (world s0)))"
        by (simp add: prod_eq_iff)
      from H1 [OF this] have ad: "address ctx = a" .
      have "invalidates_after_broadcast a
          ((evs @ [EvBuildTx msg None]) @ [EvBroadcastTx txByte (mode ctx) (Some e)])"
        using evs(2) by (simp only: invalidates_after_broadcast_snoc) simp
      with refused evs c ad show ?thesis
        by (intro exI [of _ "(evs @ [EvBuildTx msg None]) @
            [EvBroadcastTx txByte (mode ctx) (Some e)]"]) simp
    next
      case sent
      have "invalidates_after_broadcast a
          ((evs @ [EvBuildTx msg None]) @ [EvBroadcastTx txByte m None])"
        using evs(2) by (simp only: invalidates_after_broadcast_snoc) simp
      with sent evs c show ?thesis
        by (intro exI [of _ "(evs @ [EvBuildTx msg None]) @ [EvBroadcastTx txByte m None]"])
          simp
    qed
  qed
  have weaken: "?Q x c1" if "?A x c1" for x c1
    using that by blast
  have hook: "?I n' l' (BuildAndSend_onRetryFunc base n e c1)"
    if I: "?I n l c" and f: "?f c = (Returns (Some e), c1)" for n n' l l' c e c1
  proof -
    from step [OF I f] obtain evs where evs: "trace (snd c1) = trace s @ evs"
      "invalidates_after_broadcast a evs" "evs \<noteq> []"
      "is_broadcast (last evs) \<longrightarrow> s_address (fst c1) = a" by auto
    have "invalidates_after_broadcast a (evs @ [EvRemoveCache (s_address (fst c1))])"
      using evs(2,3,4) by (simp only: invalidates_after_broadcast_snoc) auto
    with evs(1) show ?thesis
      by (intro exI [of _ "evs @ [EvRemoveCache (s_address (fst c1))]"])
        (cases c1, simp add: BuildAndSend_onRetryFunc_def do_removeCache_def)
  qed
  from run have loop: "retry_loop ?f BuildAndSend_retryIfFunc (BuildAndSend_onRetryFunc base)
      3 0 (replicate 3 None) (v0, s) = (r, c')"
    by (simp add: retry_Do_def)
  have len: "length (replicate 3 (None :: error option)) = 3"
    by simp
  have init: "?I 0 (replicate 3 None) (v0, s)" by simp
  show ?thesis
    by (rule retry_loop_rule [where I = ?I and Q = ?Q, OF loop len init])
      (blast intro: step [THEN weaken] hook)+
qed

lemma non_stale_is_last:
  "keeps_policy evs \<Longrightarrow> e \<in> set (errors_of evs) \<Longrightarrow> \<not> stale e \<Longrightarrow>
   ev_error (last evs) = Some e \<and> last (errors_of evs) = e"
proof (induction evs rule: keeps_policy.induct)
  case (1 a b evs)
  have "ev_error a \<noteq> Some e"
  proof
    assume "ev_error a = Some e"
    with 1(2,4) show False by (cases a) auto
  qed
  with 1 have "e \<in> set (errors_of (b # evs))" by (auto split: option.splits)
  with 1 have "ev_error (last (b # evs)) = Some e \<and> last (errors_of (b # evs)) = e" by simp
  moreover from this have "errors_of (b # evs) \<noteq> []" using \<open>e \<in> set (errors_of (b # evs))\<close> by auto
  ultimately show ?case by (auto split: option.splits)
qed (auto split: option.splits)

lemma BuildAndSend_run:
  assumes "BuildAndSend base msg baseTx s = (r, s')"
  shows "\<exists>evs res. trace s' = trace s @ evs \<and> keeps_policy evs
      \<and> 1 \<le> attempts_made evs \<and> attempts_made evs \<le> 3
      \<and> ((r = Returns (res, None) \<and> ev_error (last evs) = None \<and> is_broadcast (last evs)
            \<and> Suc (length (errors_of evs)) = attempts_made evs)
         \<or> (r = Returns (res, Some (Wrap (Retry (slots 3 (errors_of evs)))))
            \<and> length (errors_of evs) = attempts_made evs))"
proof -
  let ?v0 = "\<lparr> s_res = ResultTx_zero, s_address = [] \<rparr>"
  obtain x c' where run: "retry_Do (BuildAndSend_retryableFunc base msg baseTx)
      BuildAndSend_retryIfFunc (BuildAndSend_onRetryFunc base) 3 (?v0, s) = (x, c')"
    by (cases "retry_Do (BuildAndSend_retryableFunc base msg baseTx)
      BuildAndSend_retryIfFunc (BuildAndSend_onRetryFunc base) 3 (?v0, s)")
  obtain v1 s1 where c': "c' = (v1, s1)" by (cases c')
  from BuildAndSend_loop [OF run] obtain evs where evs:
    "trace (snd c') = trace s @ evs" "keeps_policy evs"
    "1 \<le> attempts_made evs" "attempts_made evs \<le> 3"
    "(x = Returns None \<and> ev_error (last evs) = None \<and> is_broadcast (last evs)
            \<and> Suc (length (errors_of evs)) = attempts_made evs)
         \<or> (x = Returns (Some (Retry (slots 3 (errors_of evs))))
            \<and> length (errors_of evs) = attempts_made evs)"
    by blast
  from assms run c' have "s' = s1"
    by (auto simp: BuildAndSend_def tryThreshold_def split: outcome.splits option.splits)
  moreover from assms run c' evs(5) have
    "(x = Returns None \<and> r = Returns (s_res v1, None))
     \<or> (x = Returns (Some (Retry (slots 3 (errors_of evs)))) \<and>
         r = Returns (s_res v1, Some (Wrap (Retry (slots 3 (errors_of evs))))))"
    by (auto simp: BuildAndSend_def tryThreshold_def)
  ultimately show ?thesis
    using evs c' by (intro exI [of _ evs] exI [of _ "s_res v1"]) auto
qed

lemma BuildAndSend_run_world:
  assumes "BuildAndSend base msg baseTx s = (r, s')"
    and "trace s' = trace s @ evs"
  shows "world s' = replay base baseTx evs (world s)"
proof -
  let ?v0 = "\<lparr> s_res = ResultTx_zero, s_address = [] \<rparr>"
  obtain x c' where run: "retry_Do (BuildAndSend_retryableFunc base msg baseTx)
      BuildAndSend_retryIfFunc (BuildAndSend_onRetryFunc base) 3 (?v0, s) = (x, c')"
    by (cases "retry_Do (BuildAndSend_retryableFunc base msg baseTx)
      BuildAndSend_retryIfFunc (BuildAndSend_onRetryFunc base) 3 (?v0, s)")
  from assms(1) run have "s' = snd c'"
    by (auto simp: BuildAndSend_def tryThreshold_def
        split: outcome.splits option.splits prod.splits)
  with BuildAndSend_loop_world [OF run] assms(2) show ?thesis
    by auto
qed

lemma BuildAndSend_run_address:
  assumes "BuildAndSend base msg baseTx s = (r, s')"
    and "trace s' = trace s @ evs"
    and H1: "\<And>w txByte ctx w'. buildTx base msg baseTx w = (Inr (txByte, ctx), w') \<Longrightarrow> address ctx = a"
  shows "invalidates_after_broadcast a evs"
proof -
  let ?v0 = "\<lparr> s_res = ResultTx_zero, s_address = [] \<rparr>"
  obtain x c' where run: "retry_Do (BuildAndSend_retryableFunc base msg baseTx)
      BuildAndSend_retryIfFunc (BuildAndSend_onRetryFunc base) 3 (?v0, s) = (x, c')"
    by (cases "retry_Do (BuildAndSend_retryableFunc base msg baseTx)
      BuildAndSend_retryIfFunc (BuildAndSend_onRetryFunc base) 3 (?v0, s)")
  from assms(1) run have "s' = snd c'"
    by (auto simp: BuildAndSend_def tryThreshold_def
        split: outcome.splits option.splits prod.splits)
  with BuildAndSend_loop_address [OF run H1] assms(2) show ?thesis
    by auto
qed

lemma follows_error_stale: "follows a b \<Longrightarrow> ev_error a = Some e \<Longrightarrow> stale e"
  by (cases a) auto

lemma stale_before_last: "keeps_policy evs \<Longrightarrow> list_all stale (butlast (errors_of evs))"
  by (induction evs rule: keeps_policy.induct)
    (auto split: option.splits dest: follows_error_stale)


lemma run_always_stale:
  "BuildAndSend node_always_stale [bank_msg 0] baseTx10 start =
     (Returns (\<lparr> Hash = ''tx'', Height = 2 \<rparr>,
        Some (Wrap (Retry [Some (wrong_sequence ''first''), Some (wrong_sequence ''second''),
                           Some (wrong_sequence ''third'')]))),
      \<lparr> world = (0, 3),
        trace = [EvBuildTx [bank_msg 0] None,
                 EvBroadcastTx [1] ''commit'' (Some (wrong_sequence ''first'')),
                 EvRemoveCache ''iaa1signer'',
                 EvBuildTx [bank_msg 0] None,
                 EvBroadcastTx [1] ''commit'' (Some (wrong_sequence ''second'')),
                 EvRemoveCache ''iaa1signer'',
                 EvBuildTx [bank_msg 0] None,
                 EvBroadcastTx [1] ''commit'' (Some (wrong_sequence ''third'')),
                 EvRemoveCache ''iaa1signer''] \<rparr>)"
  by (simp add: BuildAndSend_def tryThreshold_def retry_Do_3 BuildAndSend_retryableFunc_def
      BuildAndSend_retryIfFunc_def BuildAndSend_onRetryFunc_def do_buildTx_def
      do_broadcastTx_def do_removeCache_def node_always_stale_def node_def start_def
      ctx0_def NewFactory_def wrong_sequence_def)


lemma run_stale_then_refused:
  "BuildAndSend node_stale_then_refused [bank_msg 0] baseTx10 cold =
     (Returns (\<lparr> Hash = ''tx'', Height = 1 \<rparr>,
        Some (Wrap (Retry [Some (wrong_sequence ''first''), Some unauthorized, None]))),
      \<lparr> world = (2, [''iaa1signer'']),
        trace = [EvBuildTx [bank_msg 0] None,
                 EvBroadcastTx [1] ''commit'' (Some (wrong_sequence ''first'')),
                 EvRemoveCache ''iaa1signer'',
                 EvBuildTx [bank_msg 0] None,
                 EvBroadcastTx [1] ''commit'' (Some unauthorized)] \<rparr>)"
  by (simp add: BuildAndSend_def tryThreshold_def retry_Do_3 BuildAndSend_retryableFunc_def
      BuildAndSend_retryIfFunc_def BuildAndSend_onRetryFunc_def do_buildTx_def
      do_broadcastTx_def do_removeCache_def node_stale_then_refused_def cached_node_def
      cold_def ctx0_def NewFactory_def wrong_sequence_def unauthorized_def)

lemma run_refused:
  "BuildAndSend node_refused [bank_msg 0] baseTx10 cold =
     (Returns (\<lparr> Hash = ''tx'', Height = 0 \<rparr>,
        Some (Wrap (Retry [Some unauthorized, None, None]))),
      \<lparr> world = (1, []),
        trace = [EvBuildTx [bank_msg 0] None,
                 EvBroadcastTx [1] ''commit'' (Some unauthorized)] \<rparr>)"
  by (simp add: BuildAndSend_def tryThreshold_def retry_Do_3 BuildAndSend_retryableFunc_def
      BuildAndSend_retryIfFunc_def BuildAndSend_onRetryFunc_def do_buildTx_def
      do_broadcastTx_def do_removeCache_def node_refused_def cached_node_def
      cold_def ctx0_def NewFactory_def unauthorized_def)

lemma run_build_stale:
  "BuildAndSend node_build_stale [bank_msg 0] baseTx10 cold =
     (Returns (ResultTx_zero,
        Some (Wrap (Retry [Some (wrong_sequence ''build''), Some (wrong_sequence ''build''),
                           Some (wrong_sequence ''build'')]))),
      \<lparr> world = (0, [[], [], []]),
        trace = [EvBuildTx [bank_msg 0] (Some (wrong_sequence ''build'')), EvRemoveCache [],
                 EvBuildTx [bank_msg 0] (Some (wrong_sequence ''build'')), EvRemoveCache [],
                 EvBuildTx [bank_msg 0] (Some (wrong_sequence ''build'')), EvRemoveCache []] \<rparr>)"
  by (simp add: BuildAndSend_def tryThreshold_def retry_Do_3 BuildAndSend_retryableFunc_def
      BuildAndSend_retryIfFunc_def BuildAndSend_onRetryFunc_def do_buildTx_def
      do_broadcastTx_def do_removeCache_def node_build_stale_def cached_node_def
      cold_def ctx0_def NewFactory_def wrong_sequence_def)















lemma isServiceTx_all:
  "msgs \<noteq> [] \<Longrightarrow> list_all (\<lambda>m. Route m = name) msgs \<Longrightarrow> isServiceTx name msgs"
  by (cases msgs) auto



lemma isServiceTx_iff: "isServiceTx name msgs \<longleftrightarrow> (\<exists>m \<in> set msgs. Route m = name)"
  by (induction msgs) auto

lemma SubArray_150_100:
  "length xs = 150 \<Longrightarrow> SubArray 100 xs = Some [take 100 xs, drop 100 xs]"
  by (simp add: SubArray_def upt_rec)




lemma validate_msgs_all:
  "list_all (\<lambda>m. ValidateBasic m = None) msgs \<Longrightarrow> validate_msgs msgs = None"
  by (induction msgs) auto

lemma run_second_refused:
  "SendBatch_run node_second_refused (map bank_msg [0 ..< 150]) baseTx10 start =
     (Returns (Some (Retry [Some unauthorized, None, None])),
      (\<lparr> v_msgs = map bank_msg [0 ..< 150], v_batch = 100,
         v_rs = [\<lparr> Hash = ''tx'', Height = 0 \<rparr>], v_address = ''iaa1signer'' \<rparr>,
       \<lparr> world = (0, 2),
         trace = [EvSubArray 100 150,
                  EvBuildTx (map bank_msg [0 ..< 100]) None,
                  EvBroadcastTx [100] ''commit'' None,
                  EvBuildTx (map bank_msg [100 ..< 150]) None,
                  EvBroadcastTx [50] ''commit'' (Some unauthorized)] \<rparr>))"
  by (simp add: SendBatch_run_def tryThreshold_def maxBatch_def retry_Do_3
      SendBatch_retryableFunc_def SendBatch_retryIf_def SendBatch_onRetry_def SubArray_150_100
      ValidateTxSize_def isServiceTx_iff bank_msg_def
      do_buildTx_def do_broadcastTx_def do_removeCache_def node_second_refused_def node_def
      start_def ctx0_def NewFactory_def take_map drop_map unauthorized_def)










section \<open>The claims\<close>

subsection \<open>C1: an error that ends the batch\<close>

text \<open>
  C1 asks that a broadcast refused with an error that is neither a stale sequence nor
  "too large" ends \<open>SendBatch\<close> at once, with the results so far and an error that is
  not nil. The batch does end at once and the results so far are returned, but the
  value of \<open>retry.Do\<close> is dropped: for every non-empty list of valid messages
  \<open>SendBatch\<close> returns the nil error, and \<open>rs\<close> as the retry loop left it.
  \<open>BuildAndSend\<close> wraps and returns the error of the same call. In the example the
  second of two groups is refused: the trace ends with the refused broadcast, the
  result of the first group is returned, and the error is \<open>None\<close>.
\<close>

theorem SendBatch_drops_error:
  assumes "msgs \<noteq> []" and "validate_msgs msgs = None"
  shows "snd (fst (SendBatch base msgs baseTx s)) = None
     \<and> fst (fst (SendBatch base msgs baseTx s)) =
         v_rs (fst (snd (SendBatch_run base msgs baseTx s)))"
  using assms by (simp add: SendBatch_def split: prod.splits)


theorem SendBatch_drops_error_witness:
  "SendBatch node_second_refused (map bank_msg [0 ..< 150]) baseTx10 start =
     (([\<lparr> Hash = ''tx'', Height = 0 \<rparr>], None),
      \<lparr> world = (0, 2),
         trace = [EvSubArray 100 150,
                  EvBuildTx (map bank_msg [0 ..< 100]) None,
                  EvBroadcastTx [100] ''commit'' None,
                  EvBuildTx (map bank_msg [100 ..< 150]) None,
                  EvBroadcastTx [50] ''commit'' (Some unauthorized)] \<rparr>)
   \<and> sdkErrorCode unauthorized = Some (OtherCode 4)"
proof -
  have ne: "map bank_msg [0 ..< 150] \<noteq> []" by simp
  have ok: "validate_msgs (map bank_msg [0 ..< 150]) = None"
    by (rule validate_msgs_all) (simp add: list_all_iff bank_msg_def)
  from SendBatch_drops_error [OF ne ok, of node_second_refused baseTx10 start] ne ok
  show ?thesis
    by (simp add: SendBatch_def run_second_refused unauthorized_def)
qed

subsection \<open>C2: 250 messages, the second group too large\<close>



subsection \<open>C3: the retry policy of \<open>BuildAndSend\<close>\<close>

text \<open>
  C3, as amended: whatever the node answers, the calls of a \<open>BuildAndSend\<close> keep the
  policy (\<open>keeps_policy\<close>): a build that is not the first call follows an invalidation
  of the cache, an invalidation follows only a call that failed with the
  wrong-sequence code, and nothing follows a call that failed with another error or a
  broadcast that succeeded. There are between one and three builds, one for each
  attempt. The state of the node and the cache at the end is the one the calls of the
  trace leave, each invalidation being \<open>removeCache\<close> applied to its account: before
  each retry the cache has been invalidated. When every build context carries the
  address \<open>a\<close> of the signer, every invalidation that comes after a failed broadcast is
  of \<open>a\<close>; an invalidation after a failed build is of whatever account the last
  failed broadcast left (none at first), and is not promised. A failed \<open>BuildAndSend\<close>
  returns, wrapped, the log of \<open>retry.Do\<close>: three slots, the errors of the attempts
  made in order, then nil. An error without the wrong-sequence code is the last error
  of that log and the error of the last call made: the operation ends there, but what
  is returned is the log wrapped, not that error wrapped.
\<close>

theorem BuildAndSend_retry_policy:
  assumes "BuildAndSend base msg baseTx s = (r, s')"
  shows "\<exists>evs res. trace s' = trace s @ evs
      \<and> world s' = replay base baseTx evs (world s)
      \<and> keeps_policy evs
      \<and> 1 \<le> attempts_made evs \<and> attempts_made evs \<le> 3
      \<and> ((r = Returns (res, None) \<and> ev_error (last evs) = None \<and> is_broadcast (last evs))
         \<or> (r = Returns (res, Some (Wrap (Retry (slots 3 (errors_of evs)))))
            \<and> length (errors_of evs) = attempts_made evs))
      \<and> (\<forall>e. e \<in> set (errors_of evs) \<and> \<not> stale e \<longrightarrow>
            ev_error (last evs) = Some e \<and> last (errors_of evs) = e
            \<and> r = Returns (res, Some (Wrap (Retry (slots 3 (errors_of evs))))))
      \<and> ((\<forall>w txByte ctx w'. buildTx base msg baseTx w = (Inr (txByte, ctx), w') \<longrightarrow>
              address ctx = a)
          \<longrightarrow> invalidates_after_broadcast a evs)"
proof -
  from BuildAndSend_run [OF assms] obtain evs res where evs:
    "trace s' = trace s @ evs" "keeps_policy evs"
    "1 \<le> attempts_made evs" "attempts_made evs \<le> 3"
    "(r = Returns (res, None) \<and> ev_error (last evs) = None \<and> is_broadcast (last evs)
            \<and> Suc (length (errors_of evs)) = attempts_made evs)
         \<or> (r = Returns (res, Some (Wrap (Retry (slots 3 (errors_of evs)))))
            \<and> length (errors_of evs) = attempts_made evs)"
    by blast
  have w: "world s' = replay base baseTx evs (world s)"
    using BuildAndSend_run_world [OF assms evs(1)] .
  have last: "ev_error (last evs) = Some e \<and> last (errors_of evs) = e
      \<and> r = Returns (res, Some (Wrap (Retry (slots 3 (errors_of evs)))))"
    if "e \<in> set (errors_of evs)" "\<not> stale e" for e
    using non_stale_is_last [OF evs(2) that] evs(5) by auto
  have signer: "invalidates_after_broadcast a evs"
    if "\<forall>w txByte ctx w'. buildTx base msg baseTx w = (Inr (txByte, ctx), w') \<longrightarrow> address ctx = a"
    using BuildAndSend_run_address [OF assms evs(1), of a] that by blast
  show ?thesis
    using evs w last signer by (intro exI [of _ evs] exI [of _ res]) blast
qed

theorem BuildAndSend_retry_policy_witness:
  "fst (BuildAndSend node_stale_then_refused [bank_msg 0] baseTx10 cold) =
     Returns (\<lparr> Hash = ''tx'', Height = 1 \<rparr>,
       Some (Wrap (Retry [Some (wrong_sequence ''first''), Some unauthorized, None])))
   \<and> trace (snd (BuildAndSend node_stale_then_refused [bank_msg 0] baseTx10 cold)) =
     [EvBuildTx [bank_msg 0] None,
      EvBroadcastTx [1] ''commit'' (Some (wrong_sequence ''first'')),
      EvRemoveCache ''iaa1signer'',
      EvBuildTx [bank_msg 0] None,
      EvBroadcastTx [1] ''commit'' (Some unauthorized)]
   \<and> world (snd (BuildAndSend node_stale_then_refused [bank_msg 0] baseTx10 cold)) =
       (2, [''iaa1signer''])
   \<and> world (snd (BuildAndSend node_stale_then_refused [bank_msg 0] baseTx10 cold)) =
       replay node_stale_then_refused baseTx10
         (trace (snd (BuildAndSend node_stale_then_refused [bank_msg 0] baseTx10 cold))) (0, [])
   \<and> keeps_policy (trace (snd (BuildAndSend node_stale_then_refused [bank_msg 0] baseTx10 cold)))
   \<and> attempts_made (trace (snd (BuildAndSend node_stale_then_refused [bank_msg 0] baseTx10 cold))) = 2
   \<and> invalidates_after_broadcast ''iaa1signer''
        (trace (snd (BuildAndSend node_stale_then_refused [bank_msg 0] baseTx10 cold)))
   \<and> stale (wrong_sequence ''first'') \<and> \<not> stale unauthorized"
proof -
  have H: "\<forall>w txByte ctx w'. buildTx node_stale_then_refused [bank_msg 0] baseTx10 w =
              (Inr (txByte, ctx), w') \<longrightarrow> address ctx = ''iaa1signer''"
    by (simp add: node_stale_then_refused_def cached_node_def ctx0_def NewFactory_def)
  have c: "trace cold = []" "world cold = (0, [])"
    by (simp_all add: cold_def)
  from BuildAndSend_retry_policy [OF run_stale_then_refused, of "''iaa1signer''"] H c
  obtain evs where
    "[EvBuildTx [bank_msg 0] None,
      EvBroadcastTx [1] ''commit'' (Some (wrong_sequence ''first'')),
      EvRemoveCache ''iaa1signer'',
      EvBuildTx [bank_msg 0] None,
      EvBroadcastTx [1] ''commit'' (Some unauthorized)] = evs"
    "(2 :: nat, [''iaa1signer'']) = replay node_stale_then_refused baseTx10 evs (0, [])"
    "keeps_policy evs" "invalidates_after_broadcast ''iaa1signer'' evs"
    by auto
  then show ?thesis
    by (auto simp: run_stale_then_refused attempts_made_def stale_def
        wrong_sequence_def unauthorized_def)
qed

theorem BuildAndSend_retry_policy_counterexample:
  "fst (BuildAndSend node_refused [bank_msg 0] baseTx10 cold) =
     Returns (\<lparr> Hash = ''tx'', Height = 0 \<rparr>, Some (Wrap (Retry [Some unauthorized, None, None])))
   \<and> fst (BuildAndSend node_refused [bank_msg 0] baseTx10 cold) \<noteq>
     Returns (\<lparr> Hash = ''tx'', Height = 0 \<rparr>, Some (Wrap unauthorized))
   \<and> \<not> stale unauthorized
   \<and> trace (snd (BuildAndSend node_refused [bank_msg 0] baseTx10 cold)) =
     [EvBuildTx [bank_msg 0] None, EvBroadcastTx [1] ''commit'' (Some unauthorized)]
   \<and> trace (snd (BuildAndSend node_build_stale [bank_msg 0] baseTx10 cold)) =
     [EvBuildTx [bank_msg 0] (Some (wrong_sequence ''build'')), EvRemoveCache [],
      EvBuildTx [bank_msg 0] (Some (wrong_sequence ''build'')), EvRemoveCache [],
      EvBuildTx [bank_msg 0] (Some (wrong_sequence ''build'')), EvRemoveCache []]
   \<and> world (snd (BuildAndSend node_build_stale [bank_msg 0] baseTx10 cold)) = (0, [[], [], []])"
  by (simp add: run_refused run_build_stale stale_def unauthorized_def)

subsection \<open>C4: the empty list\<close>

text \<open>
  C4: \<open>SendBatch\<close> of the empty list returns no result and the error
  "must have at least one message in list", and leaves the state of the node and the
  trace as they were: no build, no size query, no broadcast.
\<close>

theorem SendBatch_empty:
  "SendBatch base [] baseTx s = (([], Some (Wrapf ''must have at least one message in list'')), s)
   \<and> trace (snd (SendBatch base [] baseTx s)) = trace s
   \<and> snd (fst (SendBatch base [] baseTx s)) \<noteq> None"
  by (simp add: SendBatch_def)

theorem SendBatch_empty_witness:
  "SendBatch node_second_refused [] baseTx10 start =
     (([], Some (Wrap (Plain ''must have at least one message in list''))), start)
   \<and> trace (snd (SendBatch node_second_refused [] baseTx10 start)) = []"
  using SendBatch_empty [of node_second_refused baseTx10 start]
  by (simp add: Wrapf_def start_def)

subsection \<open>C5: a message that fails its own validation\<close>

text \<open>
  C5: when \<open>m\<close> is the first message of the list whose \<open>ValidateBasic\<close> returns an
  error, \<open>SendBatch\<close> returns that error, wrapped, and no result, and leaves the state
  of the node and the trace as they were: no call is made for any message.
\<close>

theorem SendBatch_invalid_msg:
  assumes "find (\<lambda>m. ValidateBasic m \<noteq> None) msgs = Some m"
  shows "\<exists>err. ValidateBasic m = Some err
     \<and> SendBatch base msgs baseTx s = (([], Some (Wrap err)), s)
     \<and> trace (snd (SendBatch base msgs baseTx s)) = trace s"
proof -
  from assms have "ValidateBasic m \<noteq> None" and "msgs \<noteq> []"
    by (auto simp: find_Some_iff)
  then obtain err where err: "ValidateBasic m = Some err" by auto
  with assms have "validate_msgs msgs = Some err"
    by (simp add: validate_msgs_find)
  with \<open>msgs \<noteq> []\<close> err show ?thesis
    by (simp add: SendBatch_def)
qed

theorem SendBatch_invalid_msg_witness:
  "SendBatch node_second_refused
     [bank_msg 0, bank_msg 1, (bank_msg 2)\<lparr>ValidateBasic := Some (Plain ''no amount'')\<rparr>,
      (bank_msg 3)\<lparr>ValidateBasic := Some (Plain ''no sender'')\<rparr>, bank_msg 4]
     baseTx10 start =
   (([], Some (Wrap (Plain ''no amount''))), start)"
  using SendBatch_invalid_msg [of
      "[bank_msg 0, bank_msg 1, (bank_msg 2)\<lparr>ValidateBasic := Some (Plain ''no amount'')\<rparr>,
        (bank_msg 3)\<lparr>ValidateBasic := Some (Plain ''no sender'')\<rparr>, bank_msg 4]"
      "(bank_msg 2)\<lparr>ValidateBasic := Some (Plain ''no amount'')\<rparr>"
      node_second_refused baseTx10 start]
  by (simp add: bank_msg_def)

subsection \<open>C6: the hash of the locker\<close>

text \<open>
  C6: \<open>indexFor\<close> is the hash of the specification: from the seed 2166136261, for each
  byte of the key from left to right, the hash times 16777619 (modulo \<open>2 ^ 32\<close>) and
  then XOR the byte. The shard of a key in the locker of the client (16 shards) is
  this hash modulo 16, a valid index; equal keys have equal hashes and equal shards.
\<close>

theorem indexFor_shard:
  assumes "key' = key"
  shows "indexFor key = spec_hash key
    \<and> getShard_index (NewLocker concurrency) key = Some (unat (spec_hash key) mod 16)
    \<and> unat (spec_hash key) mod 16 < length (shards (NewLocker concurrency))
    \<and> indexFor key' = indexFor key
    \<and> getShard_index (NewLocker concurrency) key' = getShard_index (NewLocker concurrency) key"
  using assms
  by (simp add: indexFor_spec_hash getShard_index_def NewLocker_def concurrency_def Let_def)

theorem indexFor_shard_witness:
  "indexFor ''foo'' = 1083137555 \<and> getShard_index (NewLocker concurrency) ''foo'' = Some 3"
  using indexFor_shard [of "''foo''" "''foo''"]
  by (simp add: spec_hash_def)

subsection \<open>C7: the group size stays positive\<close>




subsection \<open>C8: three failed attempts\<close>

text \<open>
  C8, as amended: when the three attempts of a \<open>BuildAndSend\<close> fail with the errors
  \<open>e1\<close>, \<open>e2\<close> and \<open>e3\<close> (the first two then carry the wrong-sequence code), the
  error returned is the \<open>retry.Error\<close> of all three, in order (its three slots hold
  them), wrapped by \<open>sdk.Wrap\<close> with its one code: the error of the third attempt is
  its last entry, not the value returned.
\<close>

theorem BuildAndSend_exhausted:
  assumes run: "BuildAndSend base msg baseTx s = (r, s')"
    and tr: "trace s' = trace s @ evs"
    and errs: "errors_of evs = [e1, e2, e3]"
  shows "\<exists>res. r = Returns (res, Some (Wrap (Retry [Some e1, Some e2, Some e3])))
      \<and> sdkErrorCode (Wrap (Retry [Some e1, Some e2, Some e3])) = Some WrapCode
      \<and> attempts_made evs = 3 \<and> stale e1 \<and> stale e2"
proof -
  from BuildAndSend_run [OF run] tr obtain res where evs:
    "keeps_policy evs" "attempts_made evs \<le> 3"
    "(r = Returns (res, None) \<and> ev_error (last evs) = None \<and> is_broadcast (last evs)
            \<and> Suc (length (errors_of evs)) = attempts_made evs)
         \<or> (r = Returns (res, Some (Wrap (Retry (slots 3 (errors_of evs)))))
            \<and> length (errors_of evs) = attempts_made evs)"
    by auto
  from stale_before_last [OF evs(1)] errs have "stale e1 \<and> stale e2" by simp
  with evs errs show ?thesis by (auto simp: slots_def)
qed

theorem BuildAndSend_exhausted_witness:
  "fst (BuildAndSend node_always_stale [bank_msg 0] baseTx10 start) =
     Returns (\<lparr> Hash = ''tx'', Height = 2 \<rparr>,
        Some (Wrap (Retry [Some (wrong_sequence ''first''), Some (wrong_sequence ''second''),
                           Some (wrong_sequence ''third'')])))
   \<and> stale (wrong_sequence ''first'') \<and> stale (wrong_sequence ''second'')
   \<and> stale (wrong_sequence ''third'')"
  using BuildAndSend_exhausted [OF run_always_stale, of _ "wrong_sequence ''first''"
      "wrong_sequence ''second''" "wrong_sequence ''third''"]
  by (simp add: start_def stale_def wrong_sequence_def run_always_stale [unfolded start_def wrong_sequence_def])

theorem BuildAndSend_exhausted_counterexample:
  "fst (BuildAndSend node_always_stale [bank_msg 0] baseTx10 start) =
     Returns (\<lparr> Hash = ''tx'', Height = 2 \<rparr>,
        Some (Wrap (Retry [Some (wrong_sequence ''first''), Some (wrong_sequence ''second''),
                           Some (wrong_sequence ''third'')])))
   \<and> fst (BuildAndSend node_always_stale [bank_msg 0] baseTx10 start) \<noteq>
     Returns (\<lparr> Hash = ''tx'', Height = 2 \<rparr>, Some (Wrap (wrong_sequence ''third'')))"
  by (simp add: run_always_stale wrong_sequence_def)

subsection \<open>C9: the credential of the gRPC channel\<close>

text \<open>
  C9: the metadata of the token made from the project configuration has exactly the
  three keys \<open>projectId\<close>, \<open>projectKey\<close> and \<open>chainAccountAddress\<close>, bound to the
  three fields of the configuration unchanged, and no error; the token does not
  require transport security; and the channel is dialled with \<open>WithInsecure\<close> and this
  token as its per-call credential.
\<close>

theorem Token_metadata:
  "fst (GetRequestMetadata (NewBsnToken info) uri) =
     [''projectId'' \<mapsto> ProjectId info, ''projectKey'' \<mapsto> ProjectKey info,
      ''chainAccountAddress'' \<mapsto> ChainAccountAddress info]
   \<and> dom (fst (GetRequestMetadata (NewBsnToken info) uri)) =
       {''projectId'', ''projectKey'', ''chainAccountAddress''}
   \<and> card (dom (fst (GetRequestMetadata (NewBsnToken info) uri))) = 3
   \<and> fst (GetRequestMetadata (NewBsnToken info) uri) ''projectId'' = Some (ProjectId info)
   \<and> fst (GetRequestMetadata (NewBsnToken info) uri) ''projectKey'' = Some (ProjectKey info)
   \<and> fst (GetRequestMetadata (NewBsnToken info) uri) ''chainAccountAddress'' =
       Some (ChainAccountAddress info)
   \<and> snd (GetRequestMetadata (NewBsnToken info) uri) = None
   \<and> RequireTransportSecurity (NewBsnToken info) = False
   \<and> clientConnSingleton (snd (NewGRPCClient (\<lambda>u os. Inr \<lparr> target = u, dialOptions = os \<rparr>) url info
        \<lparr> clientConnSingleton = None, onceDone = False \<rparr>)) =
       Some \<lparr> target = url, dialOptions = [WithInsecure, WithPerRPCCredentials (NewBsnToken info)] \<rparr>"
  by (auto simp add: GetRequestMetadata_def NewBsnToken_def RequireTransportSecurity_def
      projectIdHeader_def projectKeyHeader_def chainAccountAddressHeader_def NewGRPCClient_def)

theorem Token_metadata_witness:
  "fst (GetRequestMetadata
          (NewBsnToken \<lparr> ProjectId = ''p1'', ProjectKey = ''k1'', ChainAccountAddress = ''iaa1'' \<rparr>)
          [''/irita.service.Query/Params'']) =
     [''projectId'' \<mapsto> ''p1'', ''projectKey'' \<mapsto> ''k1'', ''chainAccountAddress'' \<mapsto> ''iaa1'']
   \<and> RequireTransportSecurity
         (NewBsnToken \<lparr> ProjectId = ''p1'', ProjectKey = ''k1'', ChainAccountAddress = ''iaa1'' \<rparr>) =
       False"
  using Token_metadata [of "\<lparr> ProjectId = ''p1'', ProjectKey = ''k1'',
      ChainAccountAddress = ''iaa1'' \<rparr>" "[''/irita.service.Query/Params'']" "''node:9090''"]
  by simp

subsection \<open>C10: the fee of \<open>prepare\<close>\<close>

text \<open>
  C10: when \<open>prepare\<close> has resolved the address and the account and the fee of the
  options is empty or not valid, the fee of the configuration is converted instead:
  if that conversion fails, \<open>prepare\<close> panics with its error and returns nothing; if
  it succeeds, \<open>prepare\<close> returns a build context whose fee is the converted fee of
  the configuration. The fee of the options is not rejected.
\<close>

theorem prepare_default_fee:
  assumes "QueryAddress base (From baseTx) (Password baseTx) w = (Inr addr, w1)"
    and "QueryAndRefreshAccount base addr w1 = (Inr account, w2)"
    and "Fee_Empty base (Fee baseTx) \<or> \<not> Fee_IsValid base (Fee baseTx)"
    and "ToMinCoin base (cfg_Fee cfg) w2 = (r, w3)"
  shows "(case r of
            Inl err \<Rightarrow> prepare base cfg baseTx w = (Panics (PanicError err), w3)
          | Inr fs \<Rightarrow> (\<exists>factory. prepare base cfg baseTx w = (Returns (Inr factory), w3)
                          \<and> fees factory = fs))"
proof (cases r)
  case (Inl err)
  with assms show ?thesis by (auto simp: prepare_def Let_def)
next
  case (Inr fs)
  have "fees (prepare_options baseTx f) = fees f" for f
    by (simp add: prepare_options_def Let_def)
  with Inr assms show ?thesis by (auto simp: prepare_def Let_def)
qed

theorem prepare_default_fee_witness:
  "prepare env10 cfg10 baseTx10 0 = (Panics (PanicError (Plain ''no coin'')), 1)
   \<and> map_prod (map_outcome (map_sum id fees)) id
         (prepare env10 (cfg10\<lparr>cfg_Fee := [(''point'', 4)]\<rparr>) baseTx10 0) =
       (Returns (Inr [(''point'', 4)]), 1)"
proof -
  have a: "QueryAddress env10 (From baseTx10) (Password baseTx10) 0 = (Inr ''iaa1signer'', 0)"
    and b: "QueryAndRefreshAccount env10 ''iaa1signer'' 0 =
        (Inr \<lparr> AccountNumber = 7, Sequence = 1 \<rparr>, 0)"
    and c: "Fee_Empty env10 (Fee baseTx10) \<or> \<not> Fee_IsValid env10 (Fee baseTx10)"
    and d: "ToMinCoin env10 (cfg_Fee cfg10) 0 = (Inl (Plain ''no coin''), 1)"
    and e: "ToMinCoin env10 (cfg_Fee (cfg10\<lparr>cfg_Fee := [(''point'', 4)]\<rparr>)) 0 =
        (Inr [(''point'', 4)], 1)"
    by (simp_all add: env10_def cfg10_def baseTx10_def)
  from prepare_default_fee [OF a b c d] prepare_default_fee [OF a b c e]
  show ?thesis by auto
qed

end
